theory Spec2Isabelle
  imports Main
begin

section \<open>Errors\<close>

text \<open>
  Modelled from the spec: the error package (internal/errors) is not part of the sources.
  The spec gives a closed enumeration of error kinds; \<open>errors.Errorf(code, format, ...)\<close>
  and \<open>errors.AssertionErrorf(format, ...)\<close> build an error value with a kind and a
  message.
\<close>

datatype ErrCode =
  AssertionError | ParseError | NetworkError | DeviceNotFound | ConnectionResetError | AdbError

text \<open>
  The error values the device client returns:
  \<^item> \<open>Err code msg\<close>: a value of the error package, with its kind and message;
  \<^item> \<open>ClientError op cause\<close>: what \<open>wrapClientError(cause, c, op)\<close> returns for a
    non-nil cause (modelled from the spec: the helper is not part of the sources; it adds
    the operation's name as context and keeps the kind of the cause);
  \<^item> \<open>FmtError msg\<close>: a plain error made by \<open>fmt.Errorf\<close>;
  \<^item> \<open>ShellExitError command exitCode\<close>: the struct of device.go.
\<close>

datatype error =
    Err ErrCode string
  | ClientError string error
  | FmtError string
  | ShellExitError string int

fun errCode :: "error \<Rightarrow> ErrCode option" where
  "errCode (Err c m) = Some c"
| "errCode (ClientError opn cause) = errCode cause"
| "errCode (FmtError m) = None"
| "errCode (ShellExitError cmd n) = None"

definition wrapClientError :: "error option \<Rightarrow> string \<Rightarrow> error option" where
  "wrapClientError err opn = (case err of None \<Rightarrow> None | Some e \<Rightarrow> Some (ClientError opn e))"

section \<open>Functions of the Go library\<close>

text \<open>
  Go strings are byte sequences: \<^typ>\<open>string\<close>. The functions below are the ones of
  the packages strings, strconv and regexp that the device client calls, with the
  behaviour the Go documentation gives them.
\<close>

subsection \<open>White space\<close>

text \<open>
  \<open>unicode.IsSpace\<close> holds of U+0009 to U+000D, U+0020, U+0085, U+00A0, U+1680, U+2000
  to U+200A, U+2028, U+2029, U+202F, U+205F and U+3000. On the bytes of a string these are
  the UTF-8 encodings below. An encoding starts with a byte that never occurs inside
  another valid encoding, and Go decodes an invalid byte as a rune of width one, so a
  white space rune stands at an offset exactly when one of these encodings does.
\<close>

definition asciiSpace :: "char \<Rightarrow> bool" where
  "asciiSpace c = (c = CHR 0x09 \<or> c = CHR 0x0A \<or> c = CHR 0x0B \<or> c = CHR 0x0C \<or> c = CHR 0x0D \<or> c = CHR 0x20)"

definition spaceEncodings :: "string list" where
  "spaceEncodings =
     [[CHR 0x09], [CHR 0x0A], [CHR 0x0B], [CHR 0x0C], [CHR 0x0D], [CHR 0x20],
      [CHR 0xC2, CHR 0x85], [CHR 0xC2, CHR 0xA0],
      [CHR 0xE1, CHR 0x9A, CHR 0x80],
      [CHR 0xE2, CHR 0x80, CHR 0x80], [CHR 0xE2, CHR 0x80, CHR 0x81],
      [CHR 0xE2, CHR 0x80, CHR 0x82], [CHR 0xE2, CHR 0x80, CHR 0x83],
      [CHR 0xE2, CHR 0x80, CHR 0x84], [CHR 0xE2, CHR 0x80, CHR 0x85],
      [CHR 0xE2, CHR 0x80, CHR 0x86], [CHR 0xE2, CHR 0x80, CHR 0x87],
      [CHR 0xE2, CHR 0x80, CHR 0x88], [CHR 0xE2, CHR 0x80, CHR 0x89],
      [CHR 0xE2, CHR 0x80, CHR 0x8A],
      [CHR 0xE2, CHR 0x80, CHR 0xA8], [CHR 0xE2, CHR 0x80, CHR 0xA9],
      [CHR 0xE2, CHR 0x80, CHR 0xAF],
      [CHR 0xE2, CHR 0x81, CHR 0x9F],
      [CHR 0xE3, CHR 0x80, CHR 0x80]]"

text \<open>The width in bytes of the first of the patterns \<open>ps\<close> that \<open>s\<close> starts with; 0 when there is none.\<close>

definition leadWidth :: "string list \<Rightarrow> string \<Rightarrow> nat" where
  "leadWidth ps s = (case find (\<lambda>p. p \<noteq> [] \<and> take (length p) s = p) ps of None \<Rightarrow> 0 | Some p \<Rightarrow> length p)"

lemma leadWidth_Nil: "leadWidth ps [] = 0"
  by (induction ps) (auto simp: leadWidth_def)

lemma leadWidth_drop: "0 < leadWidth ps s \<Longrightarrow> length s - leadWidth ps s < length s"
  by (cases s) (auto simp: leadWidth_Nil)

text \<open>\<open>strings.TrimLeftFunc\<close> for a class of runes given by its encodings.\<close>

function trimLeading :: "string list \<Rightarrow> string \<Rightarrow> string" where
  "trimLeading ps s = (if 0 < leadWidth ps s then trimLeading ps (drop (leadWidth ps s) s) else s)"
  by pat_completeness auto
termination
  by (relation "measure (\<lambda>(ps, s). length s)") (auto simp: leadWidth_drop)

declare trimLeading.simps [simp del]

text \<open>
  \<open>strings.TrimSpace(s)\<close>: \<open>s\<close> without its leading and trailing white space. The
  trailing runes are read from the end of the string: the reversed string is trimmed of
  the reversed encodings.
\<close>

definition TrimSpace :: "string \<Rightarrow> string" where
  "TrimSpace s = rev (trimLeading (map rev spaceEncodings) (rev (trimLeading spaceEncodings s)))"

text \<open>
  \<open>strings.Fields(s)\<close>: the maximal runs of bytes between white space. \<open>cur\<close> is the
  field being read.
\<close>

function Fields_from :: "string \<Rightarrow> string \<Rightarrow> string list" where
  "Fields_from cur s =
     (if s = [] then (if cur = [] then [] else [cur])
      else if 0 < leadWidth spaceEncodings s
      then (if cur = [] then [] else [cur]) @ Fields_from [] (drop (leadWidth spaceEncodings s) s)
      else Fields_from (cur @ [hd s]) (tl s))"
  by pat_completeness auto
termination
  by (relation "measure (\<lambda>(cur, s). length s)") (auto simp: leadWidth_drop)

declare Fields_from.simps [simp del]

definition Fields :: "string \<Rightarrow> string list" where
  "Fields s = Fields_from [] s"

subsection \<open>Splitting, joining, searching, replacing\<close>

text \<open>
  \<open>strings.Split(s, sep)\<close> for a separator of one byte: the pieces of \<open>s\<close> between the
  separators, one more than there are separators.
\<close>

fun Split :: "string \<Rightarrow> char \<Rightarrow> string list" where
  "Split [] sep = [[]]"
| "Split (c # cs) sep =
     (if c = sep then [] # Split cs sep
      else (case Split cs sep of [] \<Rightarrow> [[c]] | f # fs \<Rightarrow> (c # f) # fs))"

text \<open>\<open>strings.Join(elems, sep)\<close>.\<close>

fun Join :: "string list \<Rightarrow> string \<Rightarrow> string" where
  "Join [] sep = []"
| "Join [x] sep = x"
| "Join (x # y # ys) sep = x @ sep @ Join (y # ys) sep"

text \<open>\<open>strings.LastIndexByte(s, c)\<close>: the index of the last \<open>c\<close> in \<open>s\<close>, or -1.\<close>

fun LastIndexByte :: "string \<Rightarrow> char \<Rightarrow> int" where
  "LastIndexByte [] c = - 1"
| "LastIndexByte (x # xs) c =
     (let r = LastIndexByte xs c in
      if r \<noteq> - 1 then r + 1 else if x = c then 0 else - 1)"

text \<open>\<open>strings.Replace(s, "\r\n", "\n", -1)\<close>: every CR LF pair, from the left, becomes LF.\<close>

fun Replace_CRLF :: "string \<Rightarrow> string" where
  "Replace_CRLF (a # b # rest) =
     (if a = CHR 0x0D \<and> b = CHR 0x0A then CHR 0x0A # Replace_CRLF rest
      else a # Replace_CRLF (b # rest))"
| "Replace_CRLF [a] = [a]"
| "Replace_CRLF [] = []"

text \<open>\<open>strings.ContainsRune(s, '"')\<close>: the double quote is the byte 0x22.\<close>

definition dquote :: char where
  "dquote = CHR 0x22"

definition ContainsRune_dquote :: "string \<Rightarrow> bool" where
  "ContainsRune_dquote s = (dquote \<in> set s)"

subsection \<open>Numbers\<close>

text \<open>The verb \<open>%d\<close> of \<open>fmt.Sprintf\<close> on a number that is not negative.\<close>

function Itoa :: "nat \<Rightarrow> string" where
  "Itoa n = (if n < 10 then [char_of (48 + n)] else Itoa (n div 10) @ [char_of (48 + n mod 10)])"
  by pat_completeness auto
termination
  by (relation "measure (\<lambda>n. n)") auto

declare Itoa.simps [simp del]

text \<open>
  \<open>strconv.Atoi(s)\<close> is \<open>strconv.ParseInt(s, 10, 0)\<close> converted to \<open>int\<close>, which has
  \<open>IntSize\<close> bits (64 on the platforms adb runs on). Both results are modelled: the value
  and the error. On a syntax error the value is 0. On a range error the value is the
  bound of the type on the side of the sign; \<open>ParseUint\<close> reports the range error at the
  digit with which the number leaves 64 bits, and does not read further.
\<close>

datatype NumError = ErrSyntax | ErrRange

definition IntSize :: nat where
  "IntSize = 64"

definition maxUint64 :: int where
  "maxUint64 = 2 ^ 64 - 1"

definition isDigit :: "char \<Rightarrow> bool" where
  "isDigit c = (48 \<le> (of_char c :: int) \<and> (of_char c :: int) \<le> 57)"

text \<open>
  The loop of \<open>ParseUint\<close> in base 10; \<open>n\<close> is the \<open>uint64\<close> read so far. The two
  overflow checks of the source (\<open>n >= cutoff\<close> before the multiplication, \<open>n1 < n\<close>
  after the addition) are written on unbounded integers.
\<close>

fun ParseUint_digits :: "int \<Rightarrow> string \<Rightarrow> int \<times> NumError option" where
  "ParseUint_digits n [] = (n, None)"
| "ParseUint_digits n (c # cs) =
     (if \<not> isDigit c then (0, Some ErrSyntax)
      else if maxUint64 div 10 + 1 \<le> n then (maxUint64, Some ErrRange)
      else if maxUint64 < n * 10 + (of_char c - 48) then (maxUint64, Some ErrRange)
      else ParseUint_digits (n * 10 + (of_char c - 48)) cs)"

definition ParseUint :: "string \<Rightarrow> int \<times> NumError option" where
  "ParseUint s = (if s = [] then (0, Some ErrSyntax) else ParseUint_digits 0 s)"

definition ParseInt :: "string \<Rightarrow> int \<times> NumError option" where
  "ParseInt s =
     (if s = [] then (0, Some ErrSyntax)
      else
        let neg = (hd s = CHR ''-'');
            digits = (if hd s = CHR ''+'' \<or> hd s = CHR ''-'' then tl s else s);
            (un, err) = ParseUint digits;
            cutoff = (2::int) ^ (IntSize - 1)
        in if err = Some ErrSyntax then (0, err)
           else if \<not> neg \<and> cutoff \<le> un then (cutoff - 1, Some ErrRange)
           else if neg \<and> cutoff < un then (- cutoff, Some ErrRange)
           else (if neg then - un else un, None))"

definition Atoi :: "string \<Rightarrow> int \<times> NumError option" where
  "Atoi s = ParseInt s"

subsection \<open>The regular expression of Properties\<close>









section \<open>ForwardSpec\<close>

record ForwardSpec =
  Protocol :: string
  PortOrName :: string

text \<open>\<open>func (f ForwardSpec) String()\<close>: \<open>fmt.Sprintf("%s:%s", f.Protocol, f.PortOrName)\<close>.\<close>

definition ForwardSpec_String :: "ForwardSpec \<Rightarrow> string" where
  "ForwardSpec_String f = Protocol f @ '':'' @ PortOrName f"

text \<open>
  \<open>func (f *ForwardSpec) parseString(s string) error\<close>. The receiver is updated in
  place: the function returns the receiver after the call and the error.
\<close>

definition parseString :: "ForwardSpec \<Rightarrow> string \<Rightarrow> ForwardSpec \<times> error option" where
  "parseString f s =
     (let fields = Split s (CHR '':'') in
      if length fields \<noteq> 2
      then (f, Some (FmtError (''expect string contains only one '' @ [CHR 0x27] @ '':'' @ [CHR 0x27] @ '', str = '' @ s)))
      else (f\<lparr>Protocol := fields ! 0, PortOrName := fields ! 1\<rparr>, None))"

record ForwardPair =
  Serial :: string
  Local :: ForwardSpec
  Remote :: ForwardSpec

section \<open>The device client\<close>

text \<open>
  Modelled from the spec: the struct \<open>DeviceInfo\<close> is declared outside the sources. The
  spec lists its fields: serial, product, model, device name, transport-id.
\<close>

record DeviceInfo =
  Serial :: string
  Product :: string
  Model :: string
  DeviceName :: string
  TransportID :: int

text \<open>
  A \<open>*Device\<close> and the world it talks to. The server, the connection (package wire) and
  the descriptor are not part of the sources; the client sees them only through the
  results of its calls, which are the fields of this record:
  \<^item> \<open>getHostPrefix\<close>: the string \<open>c.descriptor.getHostPrefix()\<close>;
  \<^item> \<open>roundTripSingleResponse\<close>: the server's answer to a host request, by request;
  \<^item> \<open>dialDevice\<close>: the error of \<open>c.dialDevice()\<close>, \<open>None\<close> when it returns a
    connection (all its steps are calls into the server and the wire package);
  \<^item> \<open>SendMessage\<close>, \<open>ReadStatus\<close>: the errors of these calls on that connection, by request;
  \<^item> \<open>ReadUntilEof\<close>: the bytes the peer sends until it closes the connection on
    which the given request was sent, or the error of the read;
  \<^item> \<open>deviceListFunc\<close>: the result of the injected device lister, a slice of pointers
    (\<open>None\<close> is a nil pointer).
\<close>

record Device =
  getHostPrefix :: string
  roundTripSingleResponse :: "string \<Rightarrow> error + string"
  dialDevice :: "error option"
  SendMessage :: "string \<Rightarrow> error option"
  ReadStatus :: "string \<Rightarrow> error option"
  ReadUntilEof :: "string \<Rightarrow> error + string"
  deviceListFunc :: "error + DeviceInfo option list"

subsection \<open>Attributes\<close>

text \<open>\<open>getAttribute\<close>: the request is \<open>fmt.Sprintf("%s:%s", hostPrefix, attr)\<close>.\<close>

definition getAttribute :: "Device \<Rightarrow> string \<Rightarrow> error + string" where
  "getAttribute c attr =
     (case roundTripSingleResponse c (getHostPrefix c @ '':'' @ attr) of
        Inl err \<Rightarrow> Inl err
      | Inr resp \<Rightarrow> Inr resp)"

text \<open>\<open>func (c *Device) Serial()\<close>.\<close>

definition Device_Serial :: "Device \<Rightarrow> error + string" where
  "Device_Serial c =
     (case getAttribute c ''get-serialno'' of
        Inl err \<Rightarrow> Inl (ClientError ''Serial'' err)
      | Inr attr \<Rightarrow> Inr attr)"

subsection \<open>ForwardList\<close>

text \<open>
  The loop of \<open>ForwardList\<close> over the rows \<open>i = 0, ..., len(fields)/3 - 1\<close>; \<open>fs\<close> is
  the slice built so far
  (\<open>fields'\<close> stands for the variable \<open>fields\<close>). An error returns no slice (\<open>return nil, err\<close>).
\<close>

function ForwardList_loop :: "string list \<Rightarrow> string \<Rightarrow> nat \<Rightarrow> ForwardPair list \<Rightarrow> error + ForwardPair list" where
  "ForwardList_loop fields' devSerial i fs =
     (if i < length fields' div 3 then
        (let serial = fields' ! (i * 3) in
         if serial \<noteq> devSerial then ForwardList_loop fields' devSerial (i + 1) fs
         else
           (case parseString \<lparr>Protocol = [], PortOrName = []\<rparr> (fields' ! (i * 3 + 1)) of
              (local, Some err) \<Rightarrow> Inl err
            | (local, None) \<Rightarrow>
                (case parseString \<lparr>Protocol = [], PortOrName = []\<rparr> (fields' ! (i * 3 + 2)) of
                   (remote, Some err) \<Rightarrow> Inl err
                 | (remote, None) \<Rightarrow>
                     ForwardList_loop fields' devSerial (i + 1)
                       (fs @ [\<lparr>ForwardPair.Serial = serial, Local = local, Remote = remote\<rparr>]))))
      else Inr fs)"
  by pat_completeness auto
termination
  by (relation "measure (\<lambda>(fields', devSerial, i, fs). length fields' div 3 - i)") auto

declare ForwardList_loop.simps [simp del]

definition ForwardList :: "Device \<Rightarrow> error + ForwardPair list" where
  "ForwardList c =
     (case Device_Serial c of
        Inl err \<Rightarrow> Inl err
      | Inr devSerial \<Rightarrow>
          (case getAttribute c ''list-forward'' of
             Inl err \<Rightarrow> Inl err
           | Inr attr \<Rightarrow>
               (let fields' = Fields attr in
                if length fields' mod 3 \<noteq> 0 then Inl (FmtError ''list forward parse error'')
                else ForwardList_loop fields' devSerial 0 [])))"

subsection \<open>DeviceInfo\<close>

text \<open>
  What a call that can also panic does: it returns a value, returns an error, or panics
  (here: the dereference of a nil pointer).
\<close>

datatype 'a outcome = Returns 'a | Fails error | Panics

text \<open>The scan of \<open>DeviceInfo\<close> over the lister's slice, and what follows the loop.\<close>

fun DeviceInfo_scan :: "DeviceInfo option list \<Rightarrow> string \<Rightarrow> DeviceInfo outcome" where
  "DeviceInfo_scan [] serial =
     Fails (ClientError ''DeviceInfo''
       (Err DeviceNotFound (''device list doesn'' @ [CHR 0x27] @ ''t contain serial '' @ serial)))"
| "DeviceInfo_scan (None # devices) serial = Panics"
| "DeviceInfo_scan (Some deviceInfo # devices) serial =
     (if DeviceInfo.Serial deviceInfo = serial then Returns deviceInfo
      else DeviceInfo_scan devices serial)"

text \<open>\<open>func (c *Device) DeviceInfo()\<close>.\<close>

definition Device_DeviceInfo :: "Device \<Rightarrow> DeviceInfo outcome" where
  "Device_DeviceInfo c =
     (case Device_Serial c of
        Inl err \<Rightarrow> Fails (ClientError ''GetDeviceInfo(GetSerial)'' err)
      | Inr serial \<Rightarrow>
          (case deviceListFunc c of
             Inl err \<Rightarrow> Fails (ClientError ''DeviceInfo(ListDevices)'' err)
           | Inr devices \<Rightarrow> DeviceInfo_scan devices serial))"

subsection \<open>The shell command pipeline\<close>

text \<open>
  Modelled from the spec: \<open>isBlank\<close> and \<open>containsWhitespace\<close> are helpers declared outside
  the sources. By the spec a command is blank when it is empty or all white space, and an
  argument is quoted when it contains any white space. White space is taken here as the
  ASCII white space characters.
\<close>

definition isBlank :: "string \<Rightarrow> bool" where
  "isBlank str = list_all asciiSpace str"

definition containsWhitespace :: "string \<Rightarrow> bool" where
  "containsWhitespace str = list_ex asciiSpace str"

text \<open>
  The loop of \<open>prepareCommandLine\<close>, from index \<open>i\<close> on. It writes the quoted argument
  back into the slice it was given (\<open>args[i] = ...\<close>), so the result is the slice after
  the loop together with the error, if any; the arguments before a failing one stay
  quoted, the ones from it on are not touched.
\<close>

fun prepareCommandLine_loop :: "nat \<Rightarrow> string list \<Rightarrow> string list \<times> error option" where
  "prepareCommandLine_loop i [] = ([], None)"
| "prepareCommandLine_loop i (arg # rest) =
     (if ContainsRune_dquote arg
      then (arg # rest,
            Some (Err ParseError
              (''arg at index '' @ Itoa i @ '' contains an invalid double quote: '' @ arg)))
      else
        (case prepareCommandLine_loop (i + 1) rest of
           (rest', err) \<Rightarrow>
             ((if containsWhitespace arg then [dquote] @ arg @ [dquote] else arg) # rest', err)))"

text \<open>\<open>prepareCommandLine\<close>: the slice after the call, and the command line or the error.\<close>

definition prepareCommandLine :: "string \<Rightarrow> string list \<Rightarrow> string list \<times> (error + string)" where
  "prepareCommandLine cmd args =
     (if isBlank cmd then (args, Inl (Err AssertionError ''command cannot be empty''))
      else
        (case prepareCommandLine_loop 0 args of
           (args', Some err) \<Rightarrow> (args', Inl err)
         | (args', None) \<Rightarrow>
             (args', Inr (if 0 < length args' then cmd @ '' '' @ Join args' '' '' else cmd))))"

text \<open>
  What a call does that returns its results or panics before it returns.
\<close>

datatype 'a call = Returned 'a | Panicked

text \<open>
  \<open>OpenCommand\<close>: the slice after the call, and what the call does: it returns the error or
  the open connection (given by the request that was sent on it), or it panics. The
  results \<open>conn\<close> and \<open>err\<close> are named, and the function deferred after the dial closes
  \<open>conn\<close> when \<open>err\<close> is set. The two returns after it are \<open>return nil, ...\<close>: they set
  \<open>conn\<close> to nil before the deferred function runs, which then calls \<open>Close\<close> on the nil
  connection. \<open>Close\<close> of \<open>wire.Conn\<close> closes the scanner and the sender that its
  receiver holds, and reading a field of a nil receiver panics. So a failed
  \<open>SendMessage\<close> or \<open>ReadStatus\<close> ends in a panic, not in the wrapped error. The two
  returns before the \<open>defer\<close> statement run no deferred function.
\<close>

definition OpenCommand :: "Device \<Rightarrow> string \<Rightarrow> string list \<Rightarrow> string list \<times> (error + string) call" where
  "OpenCommand c cmd args =
     (case prepareCommandLine cmd args of
        (args', Inl err) \<Rightarrow> (args', Returned (Inl (ClientError ''RunCommand'' err)))
      | (args', Inr cmdline) \<Rightarrow>
          (case dialDevice c of
             Some err \<Rightarrow> (args', Returned (Inl (ClientError ''RunCommand'' err)))
           | None \<Rightarrow>
               (let req = ''shell:'' @ cmdline in
                case SendMessage c req of
                  Some err \<Rightarrow> (args', Panicked)
                | None \<Rightarrow>
                    (case ReadStatus c req of
                       Some err \<Rightarrow> (args', Panicked)
                     | None \<Rightarrow> (args', Returned (Inr req))))))"

text \<open>\<open>commandOutput\<close>: the slice after the call, and the output and the error it returns.\<close>

definition commandOutput ::
  "Device \<Rightarrow> string \<Rightarrow> string list \<Rightarrow> string list \<times> (string \<times> error option) call" where
  "commandOutput c cmd args =
     (case OpenCommand c cmd args of
        (args', Panicked) \<Rightarrow> (args', Panicked)
      | (args', Returned (Inl err)) \<Rightarrow> (args', Returned ([], Some err))
      | (args', Returned (Inr conn)) \<Rightarrow>
          (case ReadUntilEof c conn of
             Inl err \<Rightarrow> (args', Returned ([], wrapClientError (Some err) ''RunCommand''))
           | Inr resp \<Rightarrow> (args', Returned (resp, None))))"

text \<open>The tokens \<open>";", "echo", ":$?"\<close> that \<open>RunCommand\<close> and \<open>RunCommandWithExitCode\<close> append.\<close>

definition sentinel :: "string list" where
  "sentinel = ['';'', ''echo'', '':$?'']"

text \<open>
  \<open>RunCommand\<close> (device.go). \<open>spare\<close> is \<open>cap(args) - len(args)\<close>. When it is at least 3,
  \<open>append(args, ";", "echo", ":$?")\<close> writes into the array of \<open>args\<close>, \<open>exArgs\<close> shares
  it, and what \<open>prepareCommandLine\<close> writes into \<open>exArgs\<close> shows in \<open>args\<close>; otherwise
  \<open>append\<close> copies and \<open>args\<close> stays as it was. A variadic call with the arguments
  written out has \<open>spare = 0\<close>. The result is the slice \<open>args\<close> after the call, and the
  output and the error the call returns.
\<close>

definition RunCommand ::
  "Device \<Rightarrow> nat \<Rightarrow> string \<Rightarrow> string list \<Rightarrow> string list \<times> (string \<times> error option) call" where
  "RunCommand c spare cmd args =
     (case commandOutput c cmd (args @ sentinel) of
        (exArgs, res) \<Rightarrow>
          (let args' = (if 3 \<le> spare then take (length args) exArgs else args) in
           case res of
             Panicked \<Rightarrow> (args', Panicked)
           | Returned (outStr, Some e) \<Rightarrow> (args', Returned (outStr, Some e))
           | Returned (outStr, None) \<Rightarrow>
               (let idx = LastIndexByte outStr (CHR '':'') in
                if idx = - 1
                then (args', Returned (outStr, Some (FmtError ''adb shell error, parse exit code failed'')))
                else
                  (let exitCode = fst (Atoi (TrimSpace (drop (nat (idx + 1)) outStr)));
                       err' = (if exitCode \<noteq> 0
                               then Some (ShellExitError (Join args' '' '') exitCode)
                               else None)
                   in (args', Returned (Replace_CRLF (take (nat idx) outStr), err'))))))"

text \<open>
  \<open>func (s ShellExitError) Error()\<close>: \<open>fmt.Sprintf("shell %s exit code %d", s.Command,
  s.ExitCode)\<close>.
\<close>

definition ShellExitError_Error :: "string \<Rightarrow> int \<Rightarrow> string" where
  "ShellExitError_Error command exitCode =
     ''shell '' @ command @ '' exit code ''
       @ (if exitCode < 0 then ''-'' @ Itoa (nat (- exitCode)) else Itoa (nat exitCode))"

text \<open>
  \<open>RunCommandWithExitCode\<close> (device\_extra.go). It calls \<open>RunCommand\<close> with
  \<open>exArgs\<close>. \<open>grown\<close> is the spare capacity of the array that \<open>append\<close> allocates when
  it has to copy (the runtime chooses it). The result is the slice \<open>args\<close> after the
  call, and the output, the exit code and the error the call returns.
\<close>

definition RunCommandWithExitCode ::
  "Device \<Rightarrow> nat \<Rightarrow> nat \<Rightarrow> string \<Rightarrow> string list \<Rightarrow> string list \<times> (string \<times> int \<times> error option) call" where
  "RunCommandWithExitCode c spare grown cmd args =
     (case RunCommand c (if 3 \<le> spare then spare - 3 else grown) cmd (args @ sentinel) of
        (exArgs, res) \<Rightarrow>
          (let args' = (if 3 \<le> spare then take (length args) exArgs else args) in
           case res of
             Panicked \<Rightarrow> (args', Panicked)
           | Returned (outStr, Some e) \<Rightarrow> (args', Returned (outStr, 0, Some e))
           | Returned (outStr, None) \<Rightarrow>
               (let idx = LastIndexByte outStr (CHR '':'') in
                if idx = - 1
                then (args', Returned (outStr, 0, Some (FmtError ''adb shell aborted, can not parse exit code'')))
                else
                  (let exitCode = fst (Atoi (TrimSpace (drop (nat (idx + 1)) outStr)));
                       err' = (if exitCode \<noteq> 0
                               then Some (ShellExitError (Join args' '' '') exitCode)
                               else None)
                   in (args', Returned (Replace_CRLF (take (nat idx) outStr), exitCode, err'))))))"

subsection \<open>Properties\<close>




section \<open>Notions used in the statements\<close>

text \<open>An argument as the loop of \<open>prepareCommandLine\<close> leaves it: quoted when it contains white space.\<close>

definition quoteArg :: "string \<Rightarrow> string" where
  "quoteArg arg = (if containsWhitespace arg then [dquote] @ arg @ [dquote] else arg)"

text \<open>The slice \<open>args\<close> of \<open>RunCommand\<close> after a call that got as far as reading the output.\<close>

definition argsAfter :: "nat \<Rightarrow> string list \<Rightarrow> string list" where
  "argsAfter spare args = (if 3 \<le> spare then map quoteArg args else args)"

text \<open>The error of \<open>parseString\<close> for the string \<open>s\<close>.\<close>

definition errFormat :: "string \<Rightarrow> error" where
  "errFormat s = FmtError (''expect string contains only one '' @ [CHR 0x27] @ '':'' @ [CHR 0x27] @ '', str = '' @ s)"

text \<open>A token with exactly two colon-delimited fields, and the \<open>ForwardSpec\<close> of its two fields.\<close>

definition wellFormed :: "string \<Rightarrow> bool" where
  "wellFormed tok = (length (Split tok (CHR '':'')) = 2)"

definition toSpec :: "string \<Rightarrow> ForwardSpec" where
  "toSpec tok = \<lparr>Protocol = Split tok (CHR '':'') ! 0, PortOrName = Split tok (CHR '':'') ! 1\<rparr>"

text \<open>
  The rows of a \<open>list-forward\<close> response: its tokens three by three, and the
  \<open>ForwardPair\<close> of a row.
\<close>

fun rows :: "string list \<Rightarrow> (string \<times> string \<times> string) list" where
  "rows (a # b # c # rest) = (a, b, c) # rows rest"
| "rows rest = []"

definition toPair :: "string \<times> string \<times> string \<Rightarrow> ForwardPair" where
  "toPair row = (case row of (s, l, r) \<Rightarrow> \<lparr>ForwardPair.Serial = s, Local = toSpec l, Remote = toSpec r\<rparr>)"

text \<open>The loop of \<open>ForwardList\<close> told row by row.\<close>

fun scanRows :: "string \<Rightarrow> (string \<times> string \<times> string) list \<Rightarrow> ForwardPair list \<Rightarrow> error + ForwardPair list" where
  "scanRows dev [] fs = Inr fs"
| "scanRows dev ((s, l, r) # rs) fs =
     (if s \<noteq> dev then scanRows dev rs fs
      else if \<not> wellFormed l then Inl (errFormat l)
      else if \<not> wellFormed r then Inl (errFormat r)
      else scanRows dev rs (fs @ [toPair (s, l, r)]))"

text \<open>
  A device for the examples. Its server answers the request for the serial number with
  \<open>serial\<close> and every other host request with \<open>attr\<close>; dialling, sending and reading
  the status succeed; the shell stream is \<open>stream\<close>, whatever the request; the lister
  returns \<open>devices\<close>.
\<close>

definition testDevice :: "string \<Rightarrow> string \<Rightarrow> string \<Rightarrow> DeviceInfo option list \<Rightarrow> Device" where
  "testDevice serial attr stream devices =
     \<lparr>getHostPrefix = ''host-serial:'' @ serial,
      roundTripSingleResponse =
        (\<lambda>req. if req = ''host-serial:'' @ serial @ '':get-serialno'' then Inr serial else Inr attr),
      dialDevice = None,
      SendMessage = (\<lambda>req. None),
      ReadStatus = (\<lambda>req. None),
      ReadUntilEof = (\<lambda>req. Inr stream),
      deviceListFunc = Inr devices\<rparr>"

text \<open>The line ends: CR LF, as the shell of the device writes them, and LF.\<close>

definition crlf :: string where
  "crlf = [CHR 0x0D, CHR 0x0A]"

definition lf :: string where
  "lf = [CHR 0x0A]"

text \<open>A text in which a CR is followed at once by a LF.\<close>

fun containsCRLF :: "string \<Rightarrow> bool" where
  "containsCRLF (a # b # rest) = ((a = CHR 0x0D \<and> b = CHR 0x0A) \<or> containsCRLF (b # rest))"
| "containsCRLF [a] = False"
| "containsCRLF [] = False"

text \<open>
  A text that starts with a white space rune, and one that ends with one: some encoding
  of \<open>spaceEncodings\<close> is at its start, or at its end.
\<close>

definition startsWithSpace :: "string \<Rightarrow> bool" where
  "startsWithSpace s = list_ex (\<lambda>e. take (length e) s = e) spaceEncodings"

definition endsWithSpace :: "string \<Rightarrow> bool" where
  "endsWithSpace s = list_ex (\<lambda>e. take (length e) (rev s) = rev e) spaceEncodings"

text \<open>Patterns of which none is empty and none starts another one.\<close>

definition prefixFree :: "string list \<Rightarrow> bool" where
  "prefixFree ps = list_all (\<lambda>p. p \<noteq> [] \<and> list_all (\<lambda>q. take (length p) q = p \<longrightarrow> p = q) ps) ps"

text \<open>The number that a string of decimal digits writes.\<close>

definition digitsValue :: "string \<Rightarrow> int" where
  "digitsValue ds = foldl (\<lambda>n c. n * 10 + (of_char c - 48)) 0 ds"



text \<open>
  A device whose shell stream depends on the request, and the stream of a shell that
  runs the command line \<open>line\<close> with the output \<open>out\<close> and the exit code \<open>code\<close>: it
  answers each \<open>echo :$?\<close> of the request with a record of its own, the first with the
  exit code of the command and the second with 0.
\<close>

definition shellDevice :: "(string \<Rightarrow> string) \<Rightarrow> Device" where
  "shellDevice reply = (testDevice [] [] [] []) \<lparr>ReadUntilEof := (\<lambda>req. Inr (reply req))\<rparr>"

definition echoShell :: "string \<Rightarrow> string \<Rightarrow> string \<Rightarrow> string \<Rightarrow> string" where
  "echoShell line out code req =
     (if req = ''shell:'' @ line @ '' ; echo :$?'' then out @ '':'' @ code @ crlf
      else if req = ''shell:'' @ line @ '' ; echo :$? ; echo :$?''
      then out @ '':'' @ code @ crlf @ '':0'' @ crlf
      else [])"

section \<open>Properties of the library functions\<close>

lemma Split_not_Nil: "Split s sep \<noteq> []"
  by (induction s) (auto split: list.splits)

lemma Split_no_sep: "sep \<notin> set s \<Longrightarrow> Split s sep = [s]"
  by (induction s) auto

lemma Split_append_sep: "sep \<notin> set a \<Longrightarrow> Split (a @ sep # b) sep = a # Split b sep"
  by (induction a) auto

lemma LastIndexByte_absent: "c \<notin> set s \<Longrightarrow> LastIndexByte s c = - 1"
  by (induction s) auto

lemma LastIndexByte_last: "c \<notin> set post \<Longrightarrow> LastIndexByte (pre @ c # post) c = int (length pre)"
  by (induction pre) (auto simp: LastIndexByte_absent Let_def)

lemma LastIndexByte_present: "c \<in> set s \<Longrightarrow> LastIndexByte s c \<noteq> - 1"
proof -
  assume "c \<in> set s"
  then obtain pre post where "s = pre @ c # post" and "c \<notin> set post"
    by (auto dest: split_list_last)
  then show ?thesis by (simp add: LastIndexByte_last)
qed


lemma Join_Cons: "Join (x # xs) sep = (if xs = [] then x else x @ sep @ Join xs sep)"
  by (cases xs) auto

lemma Atoi_syntax_zero: "snd (Atoi s) = Some ErrSyntax \<Longrightarrow> fst (Atoi s) = 0"
  by (auto simp: Atoi_def ParseInt_def Let_def split: prod.splits if_splits)

lemma Atoi_range_bound:
  "snd (Atoi s) = Some ErrRange \<Longrightarrow> fst (Atoi s) = 2 ^ 63 - 1 \<or> fst (Atoi s) = - (2 ^ 63)"
  by (auto simp: Atoi_def ParseInt_def Let_def IntSize_def split: prod.splits if_splits)

subsection \<open>Replacing CR LF\<close>

text \<open>
  \<open>Replace_CRLF\<close> told without the function: a text is, in at least one way, lines
  without CR LF joined by CR LF, and its replacement is the same lines joined by LF.
\<close>

lemma containsCRLF_iff:
  "containsCRLF s \<longleftrightarrow> (\<exists>xs ys. s = xs @ CHR 0x0D # CHR 0x0A # ys)"
proof (induction s rule: containsCRLF.induct)
  case (1 a b rest)
  show ?case
  proof
    assume "containsCRLF (a # b # rest)"
    then consider "a = CHR 0x0D \<and> b = CHR 0x0A" | "containsCRLF (b # rest)"
      by auto
    then show "\<exists>xs ys. a # b # rest = xs @ CHR 0x0D # CHR 0x0A # ys"
    proof cases
      case 1
      then have "a # b # rest = [] @ CHR 0x0D # CHR 0x0A # rest" by simp
      then show ?thesis by blast
    next
      case 2
      with 1 obtain xs ys where "b # rest = xs @ CHR 0x0D # CHR 0x0A # ys" by auto
      then have "a # b # rest = (a # xs) @ CHR 0x0D # CHR 0x0A # ys" by simp
      then show ?thesis by blast
    qed
  next
    assume "\<exists>xs ys. a # b # rest = xs @ CHR 0x0D # CHR 0x0A # ys"
    then obtain xs ys where e: "a # b # rest = xs @ CHR 0x0D # CHR 0x0A # ys" by auto
    show "containsCRLF (a # b # rest)"
    proof (cases xs)
      case Nil
      with e show ?thesis by simp
    next
      case (Cons x xs')
      with e have "b # rest = xs' @ CHR 0x0D # CHR 0x0A # ys" by simp
      with 1 have "containsCRLF (b # rest)" by blast
      then show ?thesis by simp
    qed
  qed
next
  case (2 a)
  show ?case by (auto simp: Cons_eq_append_conv)
next
  case 3
  show ?case by simp
qed

lemma Replace_CRLF_free: "\<not> containsCRLF s \<Longrightarrow> Replace_CRLF s = s"
  by (induction s rule: Replace_CRLF.induct) auto

lemma Replace_CRLF_line:
  "\<not> containsCRLF l \<Longrightarrow>
   Replace_CRLF (l @ CHR 0x0D # CHR 0x0A # rest) = l @ CHR 0x0A # Replace_CRLF rest"
  by (induction l rule: Replace_CRLF.induct) auto

lemma Replace_CRLF_Join:
  "\<forall>l\<in>set lines. \<not> containsCRLF l \<Longrightarrow> Replace_CRLF (Join lines crlf) = Join lines lf"
  by (induction lines crlf rule: Join.induct)
    (auto simp: Replace_CRLF_free Replace_CRLF_line crlf_def lf_def)


lemma containsCRLF_Cons:
  "containsCRLF (a # f) \<longleftrightarrow> (a = CHR 0x0D \<and> f \<noteq> [] \<and> hd f = CHR 0x0A) \<or> containsCRLF f"
  by (cases f) auto

lemma lines_exist:
  "\<exists>lines. lines \<noteq> [] \<and> s = Join lines crlf \<and> (\<forall>l\<in>set lines. \<not> containsCRLF l)"
proof (induction s rule: Replace_CRLF.induct)
  case (1 a b rest)
  show ?case
  proof (cases "a = CHR 0x0D \<and> b = CHR 0x0A")
    case True
    with 1 obtain lines where l: "lines \<noteq> []" "rest = Join lines crlf" "\<forall>l\<in>set lines. \<not> containsCRLF l"
      by auto
    from l True have "[] # lines \<noteq> [] \<and> a # b # rest = Join ([] # lines) crlf
        \<and> (\<forall>l\<in>set ([] # lines). \<not> containsCRLF l)"
      by (simp add: Join_Cons crlf_def)
    then show ?thesis by blast
  next
    case False
    with 1 obtain lines where l: "lines \<noteq> []" "b # rest = Join lines crlf" "\<forall>l\<in>set lines. \<not> containsCRLF l"
      by auto
    then obtain f fs where fs: "lines = f # fs" by (cases lines) auto
    have h: "f \<noteq> [] \<Longrightarrow> hd f = b"
      using l(2) fs by (cases f) (auto simp: Join_Cons split: if_splits)
    have "\<not> containsCRLF (a # f)"
      using l(3) fs False h by (auto simp: containsCRLF_Cons)
    moreover have "a # b # rest = Join ((a # f) # fs) crlf"
      using l(2) fs by (simp add: Join_Cons)
    ultimately have "(a # f) # fs \<noteq> [] \<and> a # b # rest = Join ((a # f) # fs) crlf
        \<and> (\<forall>l\<in>set ((a # f) # fs). \<not> containsCRLF l)"
      using l(3) fs by simp
    then show ?thesis by blast
  qed
next
  case (2 a)
  have "[[a]] \<noteq> [] \<and> [a] = Join [[a]] crlf \<and> (\<forall>l\<in>set [[a]]. \<not> containsCRLF l)" by simp
  then show ?case by blast
next
  case 3
  have "[[]] \<noteq> [] \<and> [] = Join [[]] crlf \<and> (\<forall>l\<in>set [[]]. \<not> containsCRLF l)" by simp
  then show ?case by blast
qed






subsection \<open>Trimming\<close>

text \<open>
  \<open>TrimSpace\<close> told without the function: every text is white space runes, then a text
  that neither starts nor ends with one, then white space runes; and of a text so made
  \<open>TrimSpace\<close> returns the middle.
\<close>

lemma prefixFree_spaceEncodings: "prefixFree spaceEncodings"
  by (simp add: prefixFree_def spaceEncodings_def)

lemma prefixFree_rev_spaceEncodings: "prefixFree (map rev spaceEncodings)"
  by (simp add: prefixFree_def spaceEncodings_def)

lemma spaceEncodings_tails:
  "list_all (\<lambda>e. list_all (\<lambda>b. list_all (\<lambda>f. hd f \<noteq> b) spaceEncodings) (tl e)) spaceEncodings"
  by (simp add: spaceEncodings_def)

lemma leadWidth_zero_iff:
  "prefixFree ps \<Longrightarrow> leadWidth ps s = 0 \<longleftrightarrow> (\<forall>p\<in>set ps. take (length p) s \<noteq> p)"
  by (auto simp: leadWidth_def prefixFree_def list_all_iff find_None_iff find_Some_iff
      split: option.splits)

lemma leadWidth_prefix:
  assumes "prefixFree ps" and "e \<in> set ps"
  shows "leadWidth ps (e @ rest) = length e"
proof -
  let ?P = "\<lambda>p. p \<noteq> [] \<and> take (length p) (e @ rest) = p"
  from assms have "?P e" by (auto simp: prefixFree_def list_all_iff)
  with assms(2) have "find ?P ps \<noteq> None" by (auto simp: find_None_iff)
  then obtain p where f: "find ?P ps = Some p" by auto
  then have p: "p \<in> set ps" "take (length p) (e @ rest) = p"
    by (auto simp: find_Some_iff)
  have "p = e"
  proof (cases "length p \<le> length e")
    case True
    with p(2) have "take (length p) e = p" by simp
    with assms p(1) show ?thesis by (auto simp: prefixFree_def list_all_iff)
  next
    case False
    from p(2) have "take (length e) p = take (length e) (take (length p) (e @ rest))" by simp
    also have "\<dots> = e" using False by (simp add: min_def)
    finally have "take (length e) p = e" .
    with assms p(1) show ?thesis by (auto simp: prefixFree_def list_all_iff)
  qed
  with f show ?thesis by (simp add: leadWidth_def)
qed

lemma trimLeading_concat:
  assumes "prefixFree ps" and "set sp \<subseteq> set ps"
  shows "trimLeading ps (concat sp @ rest) = trimLeading ps rest"
  using assms(2)
proof (induction sp)
  case Nil
  show ?case by simp
next
  case (Cons e sp)
  then have e: "e \<in> set ps" and "set sp \<subseteq> set ps" by auto
  from assms(1) e have ne: "e \<noteq> []" by (auto simp: prefixFree_def list_all_iff)
  have w: "leadWidth ps (e @ concat sp @ rest) = length e"
    using assms(1) e by (rule leadWidth_prefix)
  have "trimLeading ps (concat (e # sp) @ rest) = trimLeading ps (concat sp @ rest)"
    using w ne by (subst trimLeading.simps) simp
  with Cons show ?case by simp
qed

lemma trimLeading_stop: "leadWidth ps s = 0 \<Longrightarrow> trimLeading ps s = s"
  by (subst trimLeading.simps) simp

lemma startsWithSpace_leadWidth: "leadWidth spaceEncodings s = 0 \<longleftrightarrow> \<not> startsWithSpace s"
  by (auto simp: leadWidth_zero_iff [OF prefixFree_spaceEncodings] startsWithSpace_def list_ex_iff)

lemma endsWithSpace_leadWidth: "leadWidth (map rev spaceEncodings) (rev s) = 0 \<longleftrightarrow> \<not> endsWithSpace s"
  by (auto simp: leadWidth_zero_iff [OF prefixFree_rev_spaceEncodings] endsWithSpace_def list_ex_iff)

lemma hd_concat_spaces:
  assumes "set sp \<subseteq> set spaceEncodings" and "concat sp \<noteq> []"
  shows "\<exists>f\<in>set spaceEncodings. hd f = hd (concat sp)"
proof -
  from assms(2) obtain f fs where sp: "sp = f # fs" by (cases sp) auto
  with assms(1) have f: "f \<in> set spaceEncodings" by simp
  with prefixFree_spaceEncodings have "f \<noteq> []" by (auto simp: prefixFree_def list_all_iff)
  with sp have "hd (concat sp) = hd f" by simp
  with f show ?thesis by auto
qed

lemma startsWithSpace_append:
  assumes "\<not> startsWithSpace num" and "num \<noteq> []" and "set sp \<subseteq> set spaceEncodings"
  shows "\<not> startsWithSpace (num @ concat sp)"
proof
  assume "startsWithSpace (num @ concat sp)"
  then obtain e where e: "e \<in> set spaceEncodings" "take (length e) (num @ concat sp) = e"
    by (auto simp: startsWithSpace_def list_ex_iff)
  show False
  proof (cases "length e \<le> length num")
    case True
    with e have "take (length e) num = e" by simp
    with e(1) assms(1) show False by (auto simp: startsWithSpace_def list_ex_iff)
  next
    case False
    then have l: "length num < length e" by simp
    have le: "length e \<le> length (num @ concat sp)"
    proof (rule ccontr)
      assume "\<not> length e \<le> length (num @ concat sp)"
      then have "length (take (length e) (num @ concat sp)) < length e" by simp
      with e(2) show False by simp
    qed
    have ne: "concat sp \<noteq> []"
    proof
      assume "concat sp = []"
      then have "length (num @ concat sp) = length num" by (simp only: append_Nil2)
      with l le show False by simp
    qed
    from e(2) l le have "e ! length num = (num @ concat sp) ! length num"
      by (metis nth_take)
    also have "\<dots> = hd (concat sp)" using ne by (simp add: nth_append hd_conv_nth)
    finally have b: "e ! length num = hd (concat sp)" .
    have "e ! length num \<in> set (tl e)"
    proof (cases e)
      case Nil
      with l show ?thesis by simp
    next
      case (Cons a list)
      from assms(2) have "0 < length num" by simp
      with l Cons have "length num - 1 < length list" by (cases num) auto
      then have "list ! (length num - 1) \<in> set list" by (rule nth_mem)
      with Cons \<open>0 < length num\<close> show ?thesis by (simp add: nth_Cons')
    qed
    moreover from hd_concat_spaces [OF assms(3) ne] b
    obtain f where "f \<in> set spaceEncodings" "hd f = e ! length num" by auto
    ultimately show False
      using spaceEncodings_tails e(1) by (auto simp: list_all_iff)
  qed
qed

lemma TrimSpace_spaces:
  assumes "set sp \<subseteq> set spaceEncodings"
  shows "TrimSpace (concat sp) = []"
proof -
  have "trimLeading spaceEncodings (concat sp @ []) = trimLeading spaceEncodings []"
    using prefixFree_spaceEncodings assms by (rule trimLeading_concat)
  then have "trimLeading spaceEncodings (concat sp) = []"
    by (simp add: trimLeading_stop leadWidth_Nil)
  then show ?thesis
    by (simp add: TrimSpace_def trimLeading_stop leadWidth_Nil)
qed

lemma TrimSpace_record:
  assumes s1: "set sp1 \<subseteq> set spaceEncodings" and s2: "set sp2 \<subseteq> set spaceEncodings"
    and a: "\<not> startsWithSpace num" and b: "\<not> endsWithSpace num"
  shows "TrimSpace (concat sp1 @ num @ concat sp2) = num"
proof (cases "num = []")
  case True
  from s1 s2 have "set (sp1 @ sp2) \<subseteq> set spaceEncodings" by simp
  then have "TrimSpace (concat (sp1 @ sp2)) = []" by (rule TrimSpace_spaces)
  with True show ?thesis by simp
next
  case False
  have "trimLeading spaceEncodings (concat sp1 @ (num @ concat sp2)) =
        trimLeading spaceEncodings (num @ concat sp2)"
    using prefixFree_spaceEncodings s1 by (rule trimLeading_concat)
  also have "\<dots> = num @ concat sp2"
    using startsWithSpace_append [OF a False s2]
    by (simp add: trimLeading_stop startsWithSpace_leadWidth)
  finally have l: "trimLeading spaceEncodings (concat sp1 @ num @ concat sp2) = num @ concat sp2" .
  have r: "rev (num @ concat sp2) = concat (map rev (rev sp2)) @ rev num"
    by (simp add: rev_concat rev_map)
  have "set (map rev (rev sp2)) \<subseteq> set (map rev spaceEncodings)"
    using s2 by auto
  with prefixFree_rev_spaceEncodings
  have "trimLeading (map rev spaceEncodings) (concat (map rev (rev sp2)) @ rev num) =
        trimLeading (map rev spaceEncodings) (rev num)"
    by (rule trimLeading_concat)
  also have "\<dots> = rev num"
    using b by (simp add: trimLeading_stop endsWithSpace_leadWidth)
  finally have t: "trimLeading (map rev spaceEncodings) (concat (map rev (rev sp2)) @ rev num) = rev num" .
  show ?thesis
    unfolding TrimSpace_def l r t by simp
qed

lemma trimLeading_decomp:
  assumes "prefixFree ps"
  shows "\<exists>sp. set sp \<subseteq> set ps \<and> s = concat sp @ trimLeading ps s
           \<and> leadWidth ps (trimLeading ps s) = 0"
proof (induction ps s rule: trimLeading.induct)
  case (1 ps s)
  show ?case
  proof (cases "0 < leadWidth ps s")
    case True
    then obtain p where f: "find (\<lambda>p. p \<noteq> [] \<and> take (length p) s = p) ps = Some p"
      and w: "leadWidth ps s = length p"
      by (auto simp: leadWidth_def split: option.splits)
    from f have p: "p \<in> set ps" "take (length p) s = p"
      by (auto simp: find_Some_iff)
    from 1 [OF True] obtain sp where sp: "set sp \<subseteq> set ps"
      "drop (leadWidth ps s) s = concat sp @ trimLeading ps (drop (leadWidth ps s) s)"
      "leadWidth ps (trimLeading ps (drop (leadWidth ps s) s)) = 0"
      by auto
    have t: "trimLeading ps s = trimLeading ps (drop (leadWidth ps s) s)"
      using True by (subst trimLeading.simps) simp
    have "s = take (length p) s @ drop (length p) s" by simp
    with p(2) have "s = p @ drop (length p) s" by simp
    with sp(2) w t have "s = concat (p # sp) @ trimLeading ps s" by simp
    moreover from sp(1) p(1) have "set (p # sp) \<subseteq> set ps" by simp
    moreover from sp(3) t have "leadWidth ps (trimLeading ps s) = 0" by simp
    ultimately show ?thesis by blast
  next
    case False
    then have "trimLeading ps s = s" by (simp add: trimLeading_stop)
    with False have "set [] \<subseteq> set ps \<and> s = concat [] @ trimLeading ps s
        \<and> leadWidth ps (trimLeading ps s) = 0" by simp
    then show ?thesis by blast
  qed
qed

lemma TrimSpace_exists:
  "\<exists>sp1 sp2. s = concat sp1 @ TrimSpace s @ concat sp2
     \<and> set sp1 \<subseteq> set spaceEncodings \<and> set sp2 \<subseteq> set spaceEncodings
     \<and> \<not> startsWithSpace (TrimSpace s) \<and> \<not> endsWithSpace (TrimSpace s)"
proof -
  define t where "t = trimLeading spaceEncodings s"
  define u where "u = trimLeading (map rev spaceEncodings) (rev t)"
  from trimLeading_decomp [OF prefixFree_spaceEncodings, of s]
  obtain sp1 where sp1: "set sp1 \<subseteq> set spaceEncodings" "s = concat sp1 @ t"
    "leadWidth spaceEncodings t = 0"
    by (auto simp: t_def)
  from trimLeading_decomp [OF prefixFree_rev_spaceEncodings, of "rev t"]
  obtain spr where spr: "set spr \<subseteq> set (map rev spaceEncodings)" "rev t = concat spr @ u"
    "leadWidth (map rev spaceEncodings) u = 0"
    by (auto simp: u_def)
  have n: "TrimSpace s = rev u"
    by (simp add: TrimSpace_def t_def u_def)
  from spr(2) have "rev (rev t) = rev (concat spr @ u)" by simp
  then have t: "t = rev u @ concat (map rev (rev spr))"
    by (simp add: rev_concat rev_map)
  have sp2: "set (map rev (rev spr)) \<subseteq> set spaceEncodings"
    using spr(1) by auto
  have e: "\<not> endsWithSpace (rev u)"
    using spr(3) endsWithSpace_leadWidth [of "rev u"] by simp
  have b: "\<not> startsWithSpace (rev u)"
  proof
    assume "startsWithSpace (rev u)"
    then obtain e where e: "e \<in> set spaceEncodings" "take (length e) (rev u) = e"
      by (auto simp: startsWithSpace_def list_ex_iff)
    have "length e \<le> length (rev u)"
    proof (rule ccontr)
      assume "\<not> length e \<le> length (rev u)"
      then have "length (take (length e) (rev u)) < length e" by simp
      with e(2) show False by simp
    qed
    with e(2) t have "take (length e) t = e" by simp
    with e(1) have "startsWithSpace t" by (auto simp: startsWithSpace_def list_ex_iff)
    with sp1(3) show False by (simp add: startsWithSpace_leadWidth)
  qed
  from sp1(2) t have "s = concat sp1 @ rev u @ concat (map rev (rev spr))" by simp
  with sp1(1) sp2 b e n show ?thesis by metis
qed

lemma TrimSpace_set: "set (TrimSpace s) \<subseteq> set s"
proof -
  from TrimSpace_exists [of s] obtain gap tail where "s = concat gap @ TrimSpace s @ concat tail"
    by blast
  then have "set s = set (concat gap @ TrimSpace s @ concat tail)" by simp
  then show ?thesis by auto
qed

lemma space_no_colon: "e \<in> set spaceEncodings \<Longrightarrow> CHR '':'' \<notin> set e"
  by (auto simp: spaceEncodings_def)

lemma spaces_no_colon: "set sp \<subseteq> set spaceEncodings \<Longrightarrow> CHR '':'' \<notin> set (concat sp)"
  by (auto dest: space_no_colon)
















subsection \<open>Decimal numerals\<close>

lemma digits_mono:
  "list_all isDigit ds \<Longrightarrow> 0 \<le> (n::int) \<Longrightarrow> n \<le> foldl (\<lambda>n c. n * 10 + (of_char c - 48)) n ds"
proof (induction ds arbitrary: n)
  case Nil
  show ?case by simp
next
  case (Cons c cs)
  then have c: "isDigit c" and cs: "list_all isDigit cs"
    by simp_all
  from c have d: "48 \<le> (of_char c :: int)"
    by (simp add: isDigit_def)
  from d Cons.prems(2) have "n \<le> n * 10 + (of_char c - 48)" by simp
  moreover from d Cons.prems(2) have "0 \<le> n * 10 + (of_char c - 48)" by simp
  then have "n * 10 + (of_char c - 48) \<le> foldl (\<lambda>n c. n * 10 + (of_char c - 48)) (n * 10 + (of_char c - 48)) cs"
    using cs by (intro Cons.IH)
  ultimately show ?case by simp
qed

lemma ParseUint_digits_value:
  "list_all isDigit ds \<Longrightarrow> 0 \<le> (n::int) \<Longrightarrow>
   foldl (\<lambda>n c. n * 10 + (of_char c - 48)) n ds \<le> maxUint64 \<Longrightarrow>
   ParseUint_digits n ds = (foldl (\<lambda>n c. n * 10 + (of_char c - 48)) n ds, None)"
proof (induction ds arbitrary: n)
  case Nil
  show ?case by simp
next
  case (Cons c cs)
  then have c: "isDigit c" and cs: "list_all isDigit cs"
    by simp_all
  from c have d: "48 \<le> (of_char c :: int)"
    by (simp add: isDigit_def)
  let ?m = "n * 10 + (of_char c - 48)"
  from d Cons.prems(2) have m0: "0 \<le> ?m" by simp
  from digits_mono [OF cs m0] Cons.prems(3) have m: "?m \<le> maxUint64" by simp
  with d have "n * 10 \<le> maxUint64" by simp
  then have "n < maxUint64 div 10 + 1" by (simp add: maxUint64_def)
  with m c Cons.IH [OF cs m0] Cons.prems(3) show ?case by simp
qed

lemma Atoi_decimal:
  assumes "ds \<noteq> []" and "list_all isDigit ds" and "digitsValue ds < 2 ^ 63"
  shows "Atoi ds = (digitsValue ds, None)"
    and "Atoi (CHR ''+'' # ds) = (digitsValue ds, None)"
    and "Atoi (CHR ''-'' # ds) = (- digitsValue ds, None)"
proof -
  from assms(3) have "digitsValue ds \<le> maxUint64" by (simp add: maxUint64_def)
  with assms(2) have u: "ParseUint_digits 0 ds = (digitsValue ds, None)"
    unfolding digitsValue_def by (intro ParseUint_digits_value) auto
  from assms(1,2) have "isDigit (hd ds)" by (cases ds) auto
  then have h: "hd ds \<noteq> CHR ''+''" "hd ds \<noteq> CHR ''-''"
    by (auto simp: isDigit_def)
  show "Atoi ds = (digitsValue ds, None)"
    using assms(1,3) u h by (simp add: Atoi_def ParseInt_def ParseUint_def IntSize_def)
  show "Atoi (CHR ''+'' # ds) = (digitsValue ds, None)"
    using assms(1,3) u by (simp add: Atoi_def ParseInt_def ParseUint_def IntSize_def)
  show "Atoi (CHR ''-'' # ds) = (- digitsValue ds, None)"
    using assms(1,3) u by (simp add: Atoi_def ParseInt_def ParseUint_def IntSize_def)
qed




subsection \<open>The matches of the regular expression\<close>









section \<open>Properties of the client\<close>

subsection \<open>prepareCommandLine\<close>

lemma loop_clean:
  "\<forall>a\<in>set args. \<not> ContainsRune_dquote a \<Longrightarrow>
   prepareCommandLine_loop i args = (map quoteArg args, None)"
  by (induction args arbitrary: i) (auto simp: quoteArg_def)

lemma loop_first_quote:
  "\<forall>b\<in>set pre. \<not> ContainsRune_dquote b \<Longrightarrow> ContainsRune_dquote a \<Longrightarrow>
   prepareCommandLine_loop i (pre @ a # post) =
     (map quoteArg pre @ a # post,
      Some (Err ParseError (''arg at index '' @ Itoa (i + length pre) @ '' contains an invalid double quote: '' @ a)))"
  by (induction pre arbitrary: i) (auto simp: quoteArg_def)

lemma loop_error_iff:
  "snd (prepareCommandLine_loop i args) = None \<longleftrightarrow> (\<forall>a\<in>set args. \<not> ContainsRune_dquote a)"
proof (cases "\<exists>a\<in>set args. ContainsRune_dquote a")
  case True
  from split_list_first_prop [OF True]
  obtain pre a post where "args = pre @ a # post" "ContainsRune_dquote a"
    "\<forall>b\<in>set pre. \<not> ContainsRune_dquote b"
    by blast
  with True show ?thesis by (auto simp: loop_first_quote)
next
  case False
  then show ?thesis by (simp add: loop_clean)
qed

lemma loop_None:
  assumes "prepareCommandLine_loop i args = (args', None)"
  shows "args' = map quoteArg args"
proof -
  from assms have "snd (prepareCommandLine_loop i args) = None" by simp
  then have "\<forall>a\<in>set args. \<not> ContainsRune_dquote a" by (simp add: loop_error_iff)
  then have "prepareCommandLine_loop i args = (map quoteArg args, None)" by (rule loop_clean)
  with assms show ?thesis by simp
qed

lemma prepare_ok:
  "prepareCommandLine cmd args = (args', Inr line) \<Longrightarrow> args' = map quoteArg args"
  by (auto simp: prepareCommandLine_def split: if_splits prod.splits option.splits dest: loop_None)

subsection \<open>RunCommand\<close>

lemma commandOutput_ok:
  "commandOutput c cmd args = (args', Returned (raw, None)) \<Longrightarrow> args' = map quoteArg args"
  by (auto simp: commandOutput_def OpenCommand_def wrapClientError_def Let_def
      split: prod.splits sum.splits option.splits call.splits dest: prepare_ok)

lemma RunCommand_no_colon:
  assumes "commandOutput c cmd (args @ sentinel) = (exArgs, Returned (raw, None))"
    and "CHR '':'' \<notin> set raw"
  shows "RunCommand c spare cmd args =
           (argsAfter spare args,
            Returned (raw, Some (FmtError ''adb shell error, parse exit code failed'')))"
  using assms commandOutput_ok [OF assms(1)]
  by (simp add: RunCommand_def LastIndexByte_absent argsAfter_def)

lemma RunCommand_colon:
  assumes "commandOutput c cmd (args @ sentinel) = (exArgs, Returned (pre @ CHR '':'' # post, None))"
    and "CHR '':'' \<notin> set post"
  shows "RunCommand c spare cmd args =
           (argsAfter spare args,
            Returned (Replace_CRLF pre,
              if fst (Atoi (TrimSpace post)) \<noteq> 0
              then Some (ShellExitError (Join (argsAfter spare args) '' '') (fst (Atoi (TrimSpace post))))
              else None))"
  using assms commandOutput_ok [OF assms(1)]
  by (simp add: RunCommand_def LastIndexByte_last argsAfter_def Let_def nat_add_distrib)

lemma RunCommand_record:
  assumes co: "commandOutput c cmd (args @ sentinel) =
      (exArgs, Returned (Join lines crlf @ CHR '':'' # concat gap @ num @ concat tail, None))"
    and l: "\<forall>l\<in>set lines. \<not> containsCRLF l"
    and n: "CHR '':'' \<notin> set num"
    and s1: "set gap \<subseteq> set spaceEncodings" and s2: "set tail \<subseteq> set spaceEncodings"
    and a: "\<not> startsWithSpace num" and b: "\<not> endsWithSpace num"
  shows "RunCommand c spare cmd args =
           (argsAfter spare args,
            Returned (Join lines lf,
              if fst (Atoi num) = 0 then None
              else Some (ShellExitError (Join (argsAfter spare args) '' '') (fst (Atoi num)))))"
proof -
  from n s1 s2 have "CHR '':'' \<notin> set (concat gap @ num @ concat tail)"
    using spaces_no_colon [of gap] spaces_no_colon [of tail] by simp
  from RunCommand_colon [OF co this, of spare] show ?thesis
    by (simp add: Replace_CRLF_Join [OF l] TrimSpace_record [OF s1 s2 a b])
qed

lemma record_exists:
  assumes "CHR '':'' \<in> set raw"
  shows "\<exists>lines gap num tail.
           raw = Join lines crlf @ CHR '':'' # concat gap @ num @ concat tail
           \<and> (\<forall>l\<in>set lines. \<not> containsCRLF l) \<and> CHR '':'' \<notin> set num
           \<and> set gap \<subseteq> set spaceEncodings \<and> set tail \<subseteq> set spaceEncodings
           \<and> \<not> startsWithSpace num \<and> \<not> endsWithSpace num"
proof -
  from assms obtain pre post where raw: "raw = pre @ CHR '':'' # post" and post: "CHR '':'' \<notin> set post"
    by (auto dest: split_list_last)
  from lines_exist [of pre] obtain lines where
    lines: "pre = Join lines crlf" "\<forall>l\<in>set lines. \<not> containsCRLF l"
    by blast
  from TrimSpace_exists [of post] obtain gap tail where
    sp: "post = concat gap @ TrimSpace post @ concat tail"
    "set gap \<subseteq> set spaceEncodings" "set tail \<subseteq> set spaceEncodings"
    "\<not> startsWithSpace (TrimSpace post)" "\<not> endsWithSpace (TrimSpace post)"
    by blast
  from post TrimSpace_set [of post] have "CHR '':'' \<notin> set (TrimSpace post)" by blast
  moreover from raw lines(1) sp(1)
  have "raw = Join lines crlf @ CHR '':'' # concat gap @ TrimSpace post @ concat tail" by simp
  ultimately show ?thesis using lines(2) sp(2-5) by blast
qed

subsection \<open>RunCommandWithExitCode\<close>







subsection \<open>Properties\<close>


subsection \<open>ForwardList\<close>

lemma parseString_wellFormed:
  "parseString \<lparr>Protocol = p, PortOrName = q\<rparr> tok =
     (if wellFormed tok then (toSpec tok, None) else (\<lparr>Protocol = p, PortOrName = q\<rparr>, Some (errFormat tok)))"
  by (simp add: parseString_def wellFormed_def toSpec_def errFormat_def Let_def)

lemma rows_short: "length xs < 3 \<Longrightarrow> rows xs = []"
  by (cases xs rule: rows.cases) auto

lemma drop_row:
  assumes "i < length xs div 3"
  shows "drop (i * 3) xs = xs ! (i * 3) # xs ! (i * 3 + 1) # xs ! (i * 3 + 2) # drop ((i + 1) * 3) xs"
proof -
  from assms have b: "i * 3 + 2 < length xs" by arith
  then have "drop (i * 3) xs = xs ! (i * 3) # drop (Suc (i * 3)) xs"
    by (simp add: Cons_nth_drop_Suc)
  also from b have "drop (Suc (i * 3)) xs = xs ! (i * 3 + 1) # drop (Suc (Suc (i * 3))) xs"
    by (simp add: Cons_nth_drop_Suc)
  also from b have "drop (Suc (Suc (i * 3))) xs = xs ! (i * 3 + 2) # drop (Suc (Suc (Suc (i * 3)))) xs"
    by (simp add: Cons_nth_drop_Suc)
  also have "Suc (Suc (Suc (i * 3))) = (i + 1) * 3" by simp
  finally show ?thesis by simp
qed

lemma loop_rows:
  "ForwardList_loop fields' dev i fs = scanRows dev (rows (drop (i * 3) fields')) fs"
proof (induction fields' dev i fs rule: ForwardList_loop.induct)
  case (1 fields' dev i fs)
  show ?case
  proof (cases "i < length fields' div 3")
    case False
    then have "length (drop (i * 3) fields') < 3" by simp
    then have "rows (drop (i * 3) fields') = []" by (rule rows_short)
    with False show ?thesis by (simp add: ForwardList_loop.simps [of fields' dev i fs])
  next
    case True
    note d = drop_row [OF True]
    show ?thesis
    proof (cases "fields' ! (i * 3) = dev")
      case False
      with True "1.IH"(1) [OF True refl] show ?thesis
        by (simp add: ForwardList_loop.simps [of fields' dev i fs] d)
    next
      case m: True
      show ?thesis
      proof (cases "wellFormed (fields' ! (i * 3 + 1)) \<and> wellFormed (fields' ! (i * 3 + 2))")
        case False
        with True m show ?thesis
          by (auto simp: ForwardList_loop.simps [of fields' dev i fs] d parseString_wellFormed)
      next
        case wf: True
        have "ForwardList_loop fields' dev (i + 1)
                (fs @ [\<lparr>ForwardPair.Serial = fields' ! (i * 3), Local = toSpec (fields' ! (i * 3 + 1)),
                         Remote = toSpec (fields' ! (i * 3 + 2))\<rparr>]) =
              scanRows dev (rows (drop ((i + 1) * 3) fields'))
                (fs @ [\<lparr>ForwardPair.Serial = fields' ! (i * 3), Local = toSpec (fields' ! (i * 3 + 1)),
                         Remote = toSpec (fields' ! (i * 3 + 2))\<rparr>])"
          using True m wf
          by (intro "1.IH"(2) [OF True refl]) (auto simp: parseString_wellFormed)
        with True m wf show ?thesis
          by (simp add: ForwardList_loop.simps [of fields' dev i fs] d parseString_wellFormed toPair_def)
      qed
    qed
  qed
qed

lemma scanRows_filter:
  "scanRows dev rs fs = scanRows dev (filter (\<lambda>row. fst row = dev) rs) fs"
  by (induction dev rs fs rule: scanRows.induct) auto

lemma scanRows_ok:
  "\<forall>row\<in>set rs. fst row = dev \<longrightarrow> wellFormed (fst (snd row)) \<and> wellFormed (snd (snd row)) \<Longrightarrow>
   scanRows dev rs fs = Inr (fs @ map toPair (filter (\<lambda>row. fst row = dev) rs))"
  by (induction dev rs fs rule: scanRows.induct) auto

lemma scanRows_fail:
  "\<exists>row\<in>set rs. fst row = dev \<and> \<not> (wellFormed (fst (snd row)) \<and> wellFormed (snd (snd row))) \<Longrightarrow>
   isl (scanRows dev rs fs)"
  by (induction dev rs fs rule: scanRows.induct) auto

lemma ForwardList_rows:
  assumes "Device_Serial c = Inr dev" and "getAttribute c ''list-forward'' = Inr attr"
    and "length (Fields attr) mod 3 = 0"
  shows "ForwardList c = scanRows dev (rows (Fields attr)) []"
  using assms by (simp add: ForwardList_def loop_rows)

lemma scanRows_isl_iff:
  "isl (scanRows dev rs fs) \<longleftrightarrow>
     (\<exists>row\<in>set rs. fst row = dev \<and> \<not> (wellFormed (fst (snd row)) \<and> wellFormed (snd (snd row))))"
proof (cases "\<exists>row\<in>set rs. fst row = dev \<and> \<not> (wellFormed (fst (snd row)) \<and> wellFormed (snd (snd row)))")
  case True
  then show ?thesis by (simp add: scanRows_fail)
next
  case False
  then have "\<forall>row\<in>set rs. fst row = dev \<longrightarrow> wellFormed (fst (snd row)) \<and> wellFormed (snd (snd row))"
    by blast
  from scanRows_ok [OF this] False show ?thesis by simp
qed

lemma rows_concat:
  "length xs mod 3 = 0 \<Longrightarrow> concat (map (\<lambda>(a, b, c). [a, b, c]) (rows xs)) = xs"
  by (induction xs rule: rows.induct) auto

subsection \<open>DeviceInfo\<close>

lemma scan_find:
  "DeviceInfo_scan (map Some ds) serial =
     (case find (\<lambda>d. DeviceInfo.Serial d = serial) ds of
        None \<Rightarrow> Fails (ClientError ''DeviceInfo''
          (Err DeviceNotFound (''device list doesn'' @ [CHR 0x27] @ ''t contain serial '' @ serial)))
      | Some d \<Rightarrow> Returns d)"
  by (induction ds) auto

subsection \<open>The device of the examples\<close>

lemma testDevice_Serial: "Device_Serial (testDevice serial attr stream devices) = Inr serial"
  by (simp add: Device_Serial_def getAttribute_def testDevice_def)

lemma testDevice_list_forward:
  "getAttribute (testDevice serial attr stream devices) ''list-forward'' = Inr attr"
  by (simp add: getAttribute_def testDevice_def)

lemma testDevice_commandOutput:
  "\<not> isBlank cmd \<Longrightarrow> \<forall>arg\<in>set args. \<not> ContainsRune_dquote arg \<Longrightarrow>
   commandOutput (testDevice serial attr stream devices) cmd args =
     (map quoteArg args, Returned (stream, None))"
  by (simp add: commandOutput_def OpenCommand_def prepareCommandLine_def loop_clean testDevice_def)

lemma sentinel_clean: "\<forall>arg\<in>set ([] @ sentinel). \<not> ContainsRune_dquote arg"
  by (simp add: sentinel_def ContainsRune_dquote_def dquote_def)

lemma cmd_not_blank: "\<not> isBlank ''cmd''"
  by (simp add: isBlank_def asciiSpace_def)

section \<open>The claims\<close>

text \<open>
  C2: for every command that is not blank and every argument list in which no argument
  contains a double quote, \<open>prepareCommandLine\<close> succeeds and returns the command
  followed by the arguments in order, joined by single spaces, each argument that
  contains white space wrapped in double quotes and the others unchanged; with no
  arguments the result is the command itself. (The slice of arguments is left with the
  quoted arguments in it.)
\<close>

theorem prepareCommandLine_joins:
  assumes "\<not> isBlank cmd" and "\<forall>arg\<in>set args. \<not> ContainsRune_dquote arg"
  shows "prepareCommandLine cmd args = (map quoteArg args, Inr (Join (cmd # map quoteArg args) '' ''))
         \<and> (args = [] \<longrightarrow> snd (prepareCommandLine cmd args) = Inr cmd)"
  using assms by (simp add: prepareCommandLine_def loop_clean Join_Cons)

theorem prepareCommandLine_joins_witness:
  "\<not> isBlank ''cmd'' \<and> \<not> ContainsRune_dquote ''arg with spaces'' \<and> \<not> ContainsRune_dquote ''arg1''
   \<and> snd (prepareCommandLine ''cmd'' [''arg with spaces'', ''arg1'']) =
       Inr (''cmd '' @ [dquote] @ ''arg with spaces'' @ [dquote] @ '' arg1'')
   \<and> snd (prepareCommandLine ''cmd'' []) = Inr ''cmd''"
proof -
  have b: "\<not> isBlank ''cmd''"
    by (simp add: isBlank_def asciiSpace_def)
  have q: "\<forall>arg\<in>set [''arg with spaces'', ''arg1'']. \<not> ContainsRune_dquote arg"
    by (simp add: ContainsRune_dquote_def dquote_def)
  have e: "\<forall>arg\<in>set ([] :: string list). \<not> ContainsRune_dquote arg"
    by simp
  from prepareCommandLine_joins [OF b q] prepareCommandLine_joins [OF b e] b q
  show ?thesis
    by (simp add: quoteArg_def containsWhitespace_def asciiSpace_def)
qed

text \<open>
  C3: \<open>prepareCommandLine\<close> fails exactly when the command is blank (empty or all white
  space) or some argument contains a double quote. A blank command gives an
  AssertionError with the message "command cannot be empty". Otherwise the first argument
  with a double quote, at index \<open>length pre\<close> (counted from 0), gives a ParseError whose
  message names that index and the argument; the call stops there: the arguments before
  it have been quoted, it and the ones after it are untouched.
\<close>

theorem prepareCommandLine_fails:
  "(isl (snd (prepareCommandLine cmd args)) \<longleftrightarrow>
      isBlank cmd \<or> (\<exists>arg\<in>set args. ContainsRune_dquote arg))
   \<and> (isBlank cmd \<longrightarrow>
        snd (prepareCommandLine cmd args) = Inl (Err AssertionError ''command cannot be empty''))
   \<and> (\<not> isBlank cmd \<and> args = pre @ a # post \<and> (\<forall>b\<in>set pre. \<not> ContainsRune_dquote b)
        \<and> ContainsRune_dquote a \<longrightarrow>
        prepareCommandLine cmd args =
          (map quoteArg pre @ a # post,
           Inl (Err ParseError
             (''arg at index '' @ Itoa (length pre) @ '' contains an invalid double quote: '' @ a))))"
proof (intro conjI impI)
  show "isl (snd (prepareCommandLine cmd args)) \<longleftrightarrow>
      isBlank cmd \<or> (\<exists>arg\<in>set args. ContainsRune_dquote arg)"
  proof (cases "isBlank cmd")
    case True
    then show ?thesis by (simp add: prepareCommandLine_def)
  next
    case False
    have "isl (snd (prepareCommandLine cmd args)) \<longleftrightarrow> snd (prepareCommandLine_loop 0 args) \<noteq> None"
      using False by (auto simp: prepareCommandLine_def split: prod.splits option.splits)
    with False show ?thesis by (simp add: loop_error_iff)
  qed
next
  assume "isBlank cmd"
  then show "snd (prepareCommandLine cmd args) = Inl (Err AssertionError ''command cannot be empty'')"
    by (simp add: prepareCommandLine_def)
next
  assume "\<not> isBlank cmd \<and> args = pre @ a # post \<and> (\<forall>b\<in>set pre. \<not> ContainsRune_dquote b)
        \<and> ContainsRune_dquote a"
  then show "prepareCommandLine cmd args =
          (map quoteArg pre @ a # post,
           Inl (Err ParseError
             (''arg at index '' @ Itoa (length pre) @ '' contains an invalid double quote: '' @ a)))"
    by (simp add: prepareCommandLine_def loop_first_quote)
qed

theorem prepareCommandLine_fails_witness:
  "isBlank [] \<and> isBlank ''  ''
   \<and> snd (prepareCommandLine ''  '' []) = Inl (Err AssertionError ''command cannot be empty'')
   \<and> \<not> isBlank ''cmd'' \<and> ContainsRune_dquote (''quoted'' @ [dquote] @ ''arg'')
   \<and> snd (prepareCommandLine ''cmd'' [''quoted'' @ [dquote] @ ''arg'']) =
       Inl (Err ParseError
         (''arg at index 0 contains an invalid double quote: quoted'' @ [dquote] @ ''arg''))
   \<and> prepareCommandLine ''cmd'' [''a b'', ''c'' @ [dquote], ''d e''] =
       ([[dquote] @ ''a b'' @ [dquote], ''c'' @ [dquote], ''d e''],
        Inl (Err ParseError (''arg at index 1 contains an invalid double quote: c'' @ [dquote])))"
proof -
  have i0: "Itoa 0 = ''0''"
    by code_simp
  have i1: "Itoa (Suc 0) = ''1''"
    by code_simp
  have b: "isBlank ''  ''" "isBlank []" "\<not> isBlank ''cmd''"
    by (simp_all add: isBlank_def asciiSpace_def)
  have q: "ContainsRune_dquote (''quoted'' @ [dquote] @ ''arg'')" "ContainsRune_dquote (''c'' @ [dquote])"
    "\<not> ContainsRune_dquote ''a b''"
    by (simp_all add: ContainsRune_dquote_def dquote_def)
  from prepareCommandLine_fails [of "''  ''" "[]"]
    prepareCommandLine_fails [of "''cmd''" "[''quoted'' @ [dquote] @ ''arg'']" "[]" "''quoted'' @ [dquote] @ ''arg''" "[]"]
    prepareCommandLine_fails [of "''cmd''" "[''a b'', ''c'' @ [dquote], ''d e'']" "[''a b'']" "''c'' @ [dquote]" "[''d e'']"]
    b q
  show ?thesis
    by (simp add: i0 i1 quoteArg_def containsWhitespace_def asciiSpace_def)
qed

text \<open>
  C6: the ForwardSpec \<open>{tcp, 8999}\<close> is written "tcp:8999"; a token with exactly two
  colon-delimited fields parses to the ForwardSpec of these fields, so that the pair
  parsed from "abc tcp:8994 udp:d2" has local \<open>{tcp, 8994}\<close> and remote \<open>{udp, d2}\<close>;
  a token with more or fewer fields fails with the format error that names the token and
  leaves the receiver as it was; and a ForwardSpec whose two fields contain no colon
  parses back from its string.
\<close>

theorem ForwardSpec_roundtrip:
  "ForwardSpec_String \<lparr>Protocol = ''tcp'', PortOrName = ''8999''\<rparr> = ''tcp:8999''
   \<and> (Split s (CHR '':'') = [a, b] \<longrightarrow> parseString f s = (\<lparr>Protocol = a, PortOrName = b\<rparr>, None))
   \<and> (length (Split s' (CHR '':'')) \<noteq> 2 \<longrightarrow> parseString f s' = (f, Some (errFormat s')))
   \<and> (CHR '':'' \<notin> set p \<and> CHR '':'' \<notin> set q \<longrightarrow>
        parseString f (ForwardSpec_String \<lparr>Protocol = p, PortOrName = q\<rparr>) =
          (\<lparr>Protocol = p, PortOrName = q\<rparr>, None))
   \<and> ForwardList (testDevice ''abc'' ''abc tcp:8994 udp:d2'' [] []) =
        Inr [\<lparr>ForwardPair.Serial = ''abc'',
              Local = \<lparr>Protocol = ''tcp'', PortOrName = ''8994''\<rparr>,
              Remote = \<lparr>Protocol = ''udp'', PortOrName = ''d2''\<rparr>\<rparr>]"
proof (intro conjI impI)
  show "ForwardSpec_String \<lparr>Protocol = ''tcp'', PortOrName = ''8999''\<rparr> = ''tcp:8999''"
    by (simp add: ForwardSpec_String_def)
next
  assume "Split s (CHR '':'') = [a, b]"
  then show "parseString f s = (\<lparr>Protocol = a, PortOrName = b\<rparr>, None)"
    by (cases f) (simp add: parseString_def)
next
  assume "length (Split s' (CHR '':'')) \<noteq> 2"
  then show "parseString f s' = (f, Some (errFormat s'))"
    by (simp add: parseString_def errFormat_def)
next
  assume "CHR '':'' \<notin> set p \<and> CHR '':'' \<notin> set q"
  then have "Split (p @ CHR '':'' # q) (CHR '':'') = [p, q]"
    by (simp add: Split_append_sep Split_no_sep)
  then show "parseString f (ForwardSpec_String \<lparr>Protocol = p, PortOrName = q\<rparr>) =
          (\<lparr>Protocol = p, PortOrName = q\<rparr>, None)"
    by (cases f) (simp add: parseString_def ForwardSpec_String_def)
next
  show "ForwardList (testDevice ''abc'' ''abc tcp:8994 udp:d2'' [] []) =
        Inr [\<lparr>ForwardPair.Serial = ''abc'',
              Local = \<lparr>Protocol = ''tcp'', PortOrName = ''8994''\<rparr>,
              Remote = \<lparr>Protocol = ''udp'', PortOrName = ''d2''\<rparr>\<rparr>]"
    by code_simp
qed

theorem ForwardSpec_roundtrip_witness:
  "Split ''tcp:8994'' (CHR '':'') = [''tcp'', ''8994'']
   \<and> parseString \<lparr>Protocol = [], PortOrName = []\<rparr> ''tcp:8994'' =
       (\<lparr>Protocol = ''tcp'', PortOrName = ''8994''\<rparr>, None)
   \<and> length (Split ''a:b:c'' (CHR '':'')) = 3 \<and> length (Split ''abc'' (CHR '':'')) = 1
   \<and> parseString \<lparr>Protocol = [], PortOrName = []\<rparr> ''a:b:c'' =
       (\<lparr>Protocol = [], PortOrName = []\<rparr>, Some (errFormat ''a:b:c''))
   \<and> parseString \<lparr>Protocol = [], PortOrName = []\<rparr> ''abc'' =
       (\<lparr>Protocol = [], PortOrName = []\<rparr>, Some (errFormat ''abc''))
   \<and> parseString \<lparr>Protocol = [], PortOrName = []\<rparr>
         (ForwardSpec_String \<lparr>Protocol = ''localabstract'', PortOrName = ''demo''\<rparr>) =
       (\<lparr>Protocol = ''localabstract'', PortOrName = ''demo''\<rparr>, None)"
  using ForwardSpec_roundtrip [of "''tcp:8994''" "''tcp''" "''8994''" "\<lparr>Protocol = [], PortOrName = []\<rparr>"
      "''a:b:c''" "''localabstract''" "''demo''"]
    ForwardSpec_roundtrip [of "''tcp:8994''" "''tcp''" "''8994''" "\<lparr>Protocol = [], PortOrName = []\<rparr>"
      "''abc''" "''localabstract''" "''demo''"]
  by simp

text \<open>
  C7: when the device lister returns a list in which no entry has the device's own
  serial, \<open>DeviceInfo\<close> fails with an error of kind DeviceNotFound whose message is the
  fixed text followed by the serial, once; when an entry has that serial, \<open>DeviceInfo\<close>
  returns the first such entry of the list. The list \<open>ds\<close> is a list of device infos:
  every pointer of the lister's slice points to one.
\<close>

theorem DeviceInfo_by_serial:
  assumes "Device_Serial c = Inr serial" and "deviceListFunc c = Inr (map Some ds)"
  shows "(serial \<notin> DeviceInfo.Serial ` set ds \<longrightarrow>
            Device_DeviceInfo c =
              Fails (ClientError ''DeviceInfo''
                (Err DeviceNotFound (''device list doesn'' @ [CHR 0x27] @ ''t contain serial '' @ serial)))
            \<and> (\<forall>e. Device_DeviceInfo c = Fails e \<longrightarrow> errCode e = Some DeviceNotFound))
         \<and> (\<forall>d. find (\<lambda>d. DeviceInfo.Serial d = serial) ds = Some d \<longrightarrow> Device_DeviceInfo c = Returns d)
         \<and> (serial \<in> DeviceInfo.Serial ` set ds \<longrightarrow>
              (\<exists>d. find (\<lambda>d. DeviceInfo.Serial d = serial) ds = Some d))"
proof -
  have s: "Device_DeviceInfo c = DeviceInfo_scan (map Some ds) serial"
    using assms by (simp add: Device_DeviceInfo_def)
  have n: "serial \<notin> DeviceInfo.Serial ` set ds \<Longrightarrow> find (\<lambda>d. DeviceInfo.Serial d = serial) ds = None"
    by (auto simp: find_None_iff)
  have e: "serial \<in> DeviceInfo.Serial ` set ds \<Longrightarrow> \<exists>d. find (\<lambda>d. DeviceInfo.Serial d = serial) ds = Some d"
    by (cases "find (\<lambda>d. DeviceInfo.Serial d = serial) ds") (auto simp: find_None_iff)
  show ?thesis
    using n e by (auto simp: s scan_find)
qed

theorem DeviceInfo_by_serial_witness:
  "Device_DeviceInfo (testDevice ''serial'' [] []
      [Some \<lparr>DeviceInfo.Serial = ''abc'', Product = ''Foo'', Model = [], DeviceName = [], TransportID = 1\<rparr>,
       Some \<lparr>DeviceInfo.Serial = ''def'', Product = ''Bar'', Model = [], DeviceName = [], TransportID = 2\<rparr>]) =
     Fails (ClientError ''DeviceInfo''
       (Err DeviceNotFound (''device list doesn'' @ [CHR 0x27] @ ''t contain serial serial'')))
   \<and> Device_DeviceInfo (testDevice ''def'' [] []
      [Some \<lparr>DeviceInfo.Serial = ''abc'', Product = ''Foo'', Model = [], DeviceName = [], TransportID = 1\<rparr>,
       Some \<lparr>DeviceInfo.Serial = ''def'', Product = ''Bar'', Model = [], DeviceName = [], TransportID = 2\<rparr>,
       Some \<lparr>DeviceInfo.Serial = ''def'', Product = ''Baz'', Model = [], DeviceName = [], TransportID = 3\<rparr>]) =
     Returns \<lparr>DeviceInfo.Serial = ''def'', Product = ''Bar'', Model = [], DeviceName = [], TransportID = 2\<rparr>"
proof -
  let ?a = "\<lparr>DeviceInfo.Serial = ''abc'', Product = ''Foo'', Model = [], DeviceName = [], TransportID = 1\<rparr>"
  let ?b = "\<lparr>DeviceInfo.Serial = ''def'', Product = ''Bar'', Model = [], DeviceName = [], TransportID = 2\<rparr>"
  let ?c = "\<lparr>DeviceInfo.Serial = ''def'', Product = ''Baz'', Model = [], DeviceName = [], TransportID = 3\<rparr>"
  have l1: "deviceListFunc (testDevice ''serial'' [] [] [Some ?a, Some ?b]) = Inr (map Some [?a, ?b])"
    by (simp add: testDevice_def)
  have l2: "deviceListFunc (testDevice ''def'' [] [] [Some ?a, Some ?b, Some ?c]) = Inr (map Some [?a, ?b, ?c])"
    by (simp add: testDevice_def)
  from DeviceInfo_by_serial [OF testDevice_Serial l1] DeviceInfo_by_serial [OF testDevice_Serial l2]
  show ?thesis by simp
qed

text \<open>
  C10: in \<open>ForwardList\<close> the serial of a row is compared before its local and remote
  tokens are parsed. For a response whose token count is divisible by three the result
  is the one computed from the rows of the device's own serial alone, and the call fails
  exactly when one of these rows has a local or remote token that is not of two
  colon-delimited fields: a row of another serial never makes it fail.
\<close>

theorem ForwardList_other_serials:
  assumes "Device_Serial c = Inr dev" and "getAttribute c ''list-forward'' = Inr attr"
    and "length (Fields attr) mod 3 = 0"
  shows "ForwardList c = scanRows dev (filter (\<lambda>row. fst row = dev) (rows (Fields attr))) []
         \<and> (isl (ForwardList c) \<longleftrightarrow>
              (\<exists>row\<in>set (rows (Fields attr)).
                 fst row = dev \<and> \<not> (wellFormed (fst (snd row)) \<and> wellFormed (snd (snd row)))))"
proof
  show "ForwardList c = scanRows dev (filter (\<lambda>row. fst row = dev) (rows (Fields attr))) []"
    using ForwardList_rows [OF assms] scanRows_filter [of dev "rows (Fields attr)" "[]"] by simp
  show "isl (ForwardList c) \<longleftrightarrow>
          (\<exists>row\<in>set (rows (Fields attr)).
             fst row = dev \<and> \<not> (wellFormed (fst (snd row)) \<and> wellFormed (snd (snd row))))"
    by (simp only: ForwardList_rows [OF assms] scanRows_isl_iff)
qed

theorem ForwardList_other_serials_witness:
  "length (Fields (''serial tcp8999 tcp:d1:x\<newline>abc tcp:8994 udp:d2'')) mod 3 = 0
   \<and> \<not> wellFormed ''tcp8999'' \<and> \<not> wellFormed ''tcp:d1:x''
   \<and> \<not> isl (ForwardList (testDevice ''abc''
           (''serial tcp8999 tcp:d1:x\<newline>abc tcp:8994 udp:d2'') [] []))"
proof -
  let ?attr = "''serial tcp8999 tcp:d1:x\<newline>abc tcp:8994 udp:d2''"
  have f: "Fields ?attr = [''serial'', ''tcp8999'', ''tcp:d1:x'', ''abc'', ''tcp:8994'', ''udp:d2'']"
    by code_simp
  then have m: "length (Fields ?attr) mod 3 = 0"
    by simp
  note s = testDevice_Serial [of "''abc''" ?attr "[]" "[]"]
  note l = testDevice_list_forward [of "''abc''" ?attr "[]" "[]"]
  from ForwardList_other_serials [OF s l m] m
  show ?thesis
    by (simp add: f wellFormed_def)
qed

text \<open>
  C5, as stated, fails: the claim lets \<open>ForwardList\<close> return the rows of the device's
  own serial whenever the token count is divisible by three, but a row of that serial
  with a malformed token makes the whole call fail. Here the response is one row,
  \<open>abc tcp8994 udp:d2\<close>, for the device \<open>abc\<close>.
\<close>

theorem ForwardList_malformed_row:
  "length (Fields ''abc tcp8994 udp:d2'') mod 3 = 0
   \<and> ForwardList (testDevice ''abc'' ''abc tcp8994 udp:d2'' [] []) = Inl (errFormat ''tcp8994'')
   \<and> ForwardList (testDevice ''abc'' ''abc tcp8994 udp:d2'' [] []) \<noteq>
       Inr (map toPair (filter (\<lambda>row. fst row = ''abc'') (rows (Fields ''abc tcp8994 udp:d2''))))"
proof -
  have "length (Fields ''abc tcp8994 udp:d2'') mod 3 = 0"
    by code_simp
  moreover have "ForwardList (testDevice ''abc'' ''abc tcp8994 udp:d2'' [] []) = Inl (errFormat ''tcp8994'')"
    by code_simp
  ultimately show ?thesis by simp
qed

text \<open>
  C5, amended: the serial is fetched first and then the list. If the number of white
  space delimited tokens of the response is not divisible by three, \<open>ForwardList\<close> fails
  with "list forward parse error" and returns no rows. Otherwise, provided the local and
  remote tokens of every row with the device's own serial have exactly two
  colon-delimited fields, it returns exactly the rows with that serial, in the order of
  the response; the rows of other serials are dropped.
\<close>

theorem ForwardList_filters:
  assumes "Device_Serial c = Inr dev" and "getAttribute c ''list-forward'' = Inr attr"
  shows "(length (Fields attr) mod 3 \<noteq> 0 \<longrightarrow> ForwardList c = Inl (FmtError ''list forward parse error''))
         \<and> (length (Fields attr) mod 3 = 0
              \<and> (\<forall>row\<in>set (rows (Fields attr)).
                    fst row = dev \<longrightarrow> wellFormed (fst (snd row)) \<and> wellFormed (snd (snd row)))
              \<longrightarrow> ForwardList c = Inr (map toPair (filter (\<lambda>row. fst row = dev) (rows (Fields attr)))))"
proof (intro conjI impI)
  assume "length (Fields attr) mod 3 \<noteq> 0"
  with assms show "ForwardList c = Inl (FmtError ''list forward parse error'')"
    by (simp add: ForwardList_def)
next
  assume a: "length (Fields attr) mod 3 = 0
      \<and> (\<forall>row\<in>set (rows (Fields attr)).
            fst row = dev \<longrightarrow> wellFormed (fst (snd row)) \<and> wellFormed (snd (snd row)))"
  then have "ForwardList c = scanRows dev (rows (Fields attr)) []"
    using assms by (simp add: ForwardList_rows)
  also from a have "\<dots> = Inr ([] @ map toPair (filter (\<lambda>row. fst row = dev) (rows (Fields attr))))"
    by (intro scanRows_ok) simp
  finally show "ForwardList c = Inr (map toPair (filter (\<lambda>row. fst row = dev) (rows (Fields attr))))"
    by simp
qed

theorem ForwardList_filters_witness:
  "length (Fields ''abc tcp:1 udp'') mod 3 = 0 \<and> length (Fields ''abc tcp:1'') mod 3 = 2
   \<and> ForwardList (testDevice ''abc'' ''abc tcp:1'' [] []) = Inl (FmtError ''list forward parse error'')
   \<and> ForwardList (testDevice ''abc''
        (''serial tcp:8999 tcp:d1\<newline>abc tcp:8994 udp:d2\<newline>abc tcp:8995 udp:d3'') [] []) =
      Inr [\<lparr>ForwardPair.Serial = ''abc'',
              Local = \<lparr>Protocol = ''tcp'', PortOrName = ''8994''\<rparr>,
              Remote = \<lparr>Protocol = ''udp'', PortOrName = ''d2''\<rparr>\<rparr>,
           \<lparr>ForwardPair.Serial = ''abc'',
              Local = \<lparr>Protocol = ''tcp'', PortOrName = ''8995''\<rparr>,
              Remote = \<lparr>Protocol = ''udp'', PortOrName = ''d3''\<rparr>\<rparr>]"
proof -
  let ?attr = "''serial tcp:8999 tcp:d1\<newline>abc tcp:8994 udp:d2\<newline>abc tcp:8995 udp:d3''"
  have f: "Fields ?attr = [''serial'', ''tcp:8999'', ''tcp:d1'', ''abc'', ''tcp:8994'', ''udp:d2'',
      ''abc'', ''tcp:8995'', ''udp:d3'']"
    by code_simp
  have g: "Fields ''abc tcp:1'' = [''abc'', ''tcp:1'']"
    by code_simp
  have h: "Fields ''abc tcp:1 udp'' = [''abc'', ''tcp:1'', ''udp'']"
    by code_simp
  note s1 = testDevice_Serial [of "''abc''" "''abc tcp:1''" "[]" "[]"]
  note l1 = testDevice_list_forward [of "''abc''" "''abc tcp:1''" "[]" "[]"]
  note s2 = testDevice_Serial [of "''abc''" ?attr "[]" "[]"]
  note l2 = testDevice_list_forward [of "''abc''" ?attr "[]" "[]"]
  from ForwardList_filters [OF s1 l1] ForwardList_filters [OF s2 l2]
  show ?thesis
    by (simp add: f g h wellFormed_def toPair_def toSpec_def)
qed

text \<open>
  C1, as stated, fails: a suffix that \<open>strconv.Atoi\<close> rejects does not always give the
  exit code 0 and a nil error. For a numeral outside the range of \<open>int\<close>, \<open>Atoi\<close>
  returns the bound of the range together with its error; \<open>RunCommand\<close> drops the error
  and keeps the value, which is not 0.
\<close>

theorem RunCommand_out_of_range:
  "snd (Atoi ''99999999999999999999'') = Some ErrRange
   \<and> snd (RunCommand (testDevice [] [] (''x'' @ crlf @ '': 99999999999999999999'' @ crlf) []) 0 ''cmd'' []) =
       Returned (''x'' @ lf, Some (ShellExitError [] 9223372036854775807))"
  by code_simp

text \<open>
  C1, amended: let \<open>raw\<close> be the output read until the peer closes. Without a colon in
  \<open>raw\<close>, \<open>RunCommand\<close> returns \<open>raw\<close> and the error "adb shell error, parse exit code
  failed". With a colon, \<open>raw\<close> is, in at least one way, lines without CR LF joined by
  CR LF, then the last colon, then white space runes, a text \<open>num\<close> that neither
  starts nor ends with a white space rune, and white space runes again. However \<open>raw\<close>
  is read in this way, the returned text is the lines joined by LF and the exit code is
  the value of \<open>strconv.Atoi\<close> on \<open>num\<close>, its error dropped: the returned error is nil
  when the value is 0 and the shell exit error with that value otherwise. So a \<open>num\<close>
  rejected for its syntax gives the exit code 0 and no error, a \<open>num\<close> rejected for
  its range gives the bound \<open>2^63 - 1\<close> or \<open>-2^63\<close> in a shell exit error, and a \<open>num\<close>
  of decimal digits below \<open>2^63\<close> gives the number it writes. The output "output:0"
  gives the text "output" and a nil error.
\<close>

theorem RunCommand_sentinel:
  assumes "commandOutput c cmd (args @ sentinel) = (exArgs, Returned (raw, None))"
  shows "(CHR '':'' \<notin> set raw \<longrightarrow>
            snd (RunCommand c spare cmd args) =
              Returned (raw, Some (FmtError ''adb shell error, parse exit code failed'')))
         \<and> (CHR '':'' \<in> set raw \<longrightarrow>
              (\<exists>lines gap num tail.
                 raw = Join lines crlf @ CHR '':'' # concat gap @ num @ concat tail
                 \<and> (\<forall>l\<in>set lines. \<not> containsCRLF l) \<and> CHR '':'' \<notin> set num
                 \<and> set gap \<subseteq> set spaceEncodings \<and> set tail \<subseteq> set spaceEncodings
                 \<and> \<not> startsWithSpace num \<and> \<not> endsWithSpace num))
         \<and> (raw = Join lines crlf @ CHR '':'' # concat gap @ num @ concat tail
              \<and> (\<forall>l\<in>set lines. \<not> containsCRLF l) \<and> CHR '':'' \<notin> set num
              \<and> set gap \<subseteq> set spaceEncodings \<and> set tail \<subseteq> set spaceEncodings
              \<and> \<not> startsWithSpace num \<and> \<not> endsWithSpace num \<longrightarrow>
              snd (RunCommand c spare cmd args) =
                Returned (Join lines lf,
                  if fst (Atoi num) = 0 then None
                  else Some (ShellExitError (Join (argsAfter spare args) '' '') (fst (Atoi num))))
              \<and> (snd (Atoi num) = Some ErrSyntax \<longrightarrow>
                   snd (RunCommand c spare cmd args) = Returned (Join lines lf, None))
              \<and> (snd (Atoi num) = Some ErrRange \<longrightarrow>
                   snd (RunCommand c spare cmd args) =
                     Returned (Join lines lf,
                       Some (ShellExitError (Join (argsAfter spare args) '' '') (2 ^ 63 - 1)))
                   \<or> snd (RunCommand c spare cmd args) =
                     Returned (Join lines lf,
                       Some (ShellExitError (Join (argsAfter spare args) '' '') (- (2 ^ 63)))))
              \<and> (num \<noteq> [] \<and> list_all isDigit num \<and> digitsValue num < 2 ^ 63 \<longrightarrow>
                   snd (RunCommand c spare cmd args) =
                     Returned (Join lines lf,
                       if digitsValue num = 0 then None
                       else Some (ShellExitError (Join (argsAfter spare args) '' '') (digitsValue num)))))
         \<and> (raw = ''output:0'' \<longrightarrow> snd (RunCommand c spare cmd args) = Returned (''output'', None))"
proof (intro conjI impI)
  assume "CHR '':'' \<notin> set raw"
  with assms show "snd (RunCommand c spare cmd args) =
      Returned (raw, Some (FmtError ''adb shell error, parse exit code failed''))"
    by (simp add: RunCommand_no_colon)
next
  assume "CHR '':'' \<in> set raw"
  then show "\<exists>lines gap num tail.
                 raw = Join lines crlf @ CHR '':'' # concat gap @ num @ concat tail
                 \<and> (\<forall>l\<in>set lines. \<not> containsCRLF l) \<and> CHR '':'' \<notin> set num
                 \<and> set gap \<subseteq> set spaceEncodings \<and> set tail \<subseteq> set spaceEncodings
                 \<and> \<not> startsWithSpace num \<and> \<not> endsWithSpace num"
    by (rule record_exists)
next
  assume "raw = ''output:0''"
  then have "raw = ''output'' @ CHR '':'' # ''0''" by simp
  with assms have "RunCommand c spare cmd args =
      (argsAfter spare args, Returned (Replace_CRLF ''output'',
         if fst (Atoi (TrimSpace ''0'')) \<noteq> 0
         then Some (ShellExitError (Join (argsAfter spare args) '' '') (fst (Atoi (TrimSpace ''0''))))
         else None))"
    by (intro RunCommand_colon) auto
  moreover have "Atoi (TrimSpace ''0'') = (0, None)"
    by code_simp
  ultimately show "snd (RunCommand c spare cmd args) = Returned (''output'', None)"
    by simp
next
  assume h: "raw = Join lines crlf @ CHR '':'' # concat gap @ num @ concat tail
              \<and> (\<forall>l\<in>set lines. \<not> containsCRLF l) \<and> CHR '':'' \<notin> set num
              \<and> set gap \<subseteq> set spaceEncodings \<and> set tail \<subseteq> set spaceEncodings
              \<and> \<not> startsWithSpace num \<and> \<not> endsWithSpace num"
  with assms have r: "RunCommand c spare cmd args =
           (argsAfter spare args,
            Returned (Join lines lf,
              if fst (Atoi num) = 0 then None
              else Some (ShellExitError (Join (argsAfter spare args) '' '') (fst (Atoi num)))))"
    by (intro RunCommand_record) auto
  show "snd (RunCommand c spare cmd args) =
                Returned (Join lines lf,
                  if fst (Atoi num) = 0 then None
                  else Some (ShellExitError (Join (argsAfter spare args) '' '') (fst (Atoi num))))"
    by (simp add: r)
  {
    assume "snd (Atoi num) = Some ErrSyntax"
    then have "fst (Atoi num) = 0" by (rule Atoi_syntax_zero)
    then show "snd (RunCommand c spare cmd args) = Returned (Join lines lf, None)"
      by (simp add: r)
  }
  {
    assume "snd (Atoi num) = Some ErrRange"
    then have "fst (Atoi num) = 2 ^ 63 - 1 \<or> fst (Atoi num) = - (2 ^ 63)"
      by (rule Atoi_range_bound)
    then show "snd (RunCommand c spare cmd args) =
                     Returned (Join lines lf,
                       Some (ShellExitError (Join (argsAfter spare args) '' '') (2 ^ 63 - 1)))
                   \<or> snd (RunCommand c spare cmd args) =
                     Returned (Join lines lf,
                       Some (ShellExitError (Join (argsAfter spare args) '' '') (- (2 ^ 63))))"
      by (auto simp: r)
  }
  {
    assume "num \<noteq> [] \<and> list_all isDigit num \<and> digitsValue num < 2 ^ 63"
    then have "Atoi num = (digitsValue num, None)" by (simp add: Atoi_decimal)
    then show "snd (RunCommand c spare cmd args) =
                     Returned (Join lines lf,
                       if digitsValue num = 0 then None
                       else Some (ShellExitError (Join (argsAfter spare args) '' '') (digitsValue num)))"
      by (simp add: r)
  }
qed

theorem RunCommand_sentinel_witness:
  "snd (RunCommand (testDevice [] []
          (''line1'' @ crlf @ ''line2'' @ crlf @ '': '' @ [CHR 0xC2, CHR 0xA0] @ ''7'' @ [CHR 0x09] @ crlf) [])
        0 ''cmd'' []) =
     Returned (''line1'' @ lf @ ''line2'' @ lf, Some (ShellExitError [] 7))
   \<and> snd (RunCommand (testDevice [] [] ''output:0'' []) 0 ''cmd'' []) = Returned (''output'', None)
   \<and> snd (RunCommand (testDevice [] [] ''output:1'' []) 0 ''cmd'' []) =
       Returned (''output'', Some (ShellExitError [] 1))
   \<and> snd (RunCommand (testDevice [] [] ''output'' []) 0 ''cmd'' []) =
       Returned (''output'', Some (FmtError ''adb shell error, parse exit code failed''))
   \<and> snd (Atoi ''zero'') = Some ErrSyntax
   \<and> snd (RunCommand (testDevice [] [] ''a:b:zero'' []) 0 ''cmd'' []) = Returned (''a:b'', None)
   \<and> snd (Atoi ''-9223372036854775809'') = Some ErrRange
   \<and> snd (RunCommand (testDevice [] [] ''x:-9223372036854775809'' []) 0 ''cmd'' []) =
       Returned (''x'', Some (ShellExitError [] (- 9223372036854775808)))
   \<and> Replace_CRLF (''line1'' @ crlf @ ''line2'' @ crlf) = ''line1'' @ lf @ ''line2'' @ lf
   \<and> TrimSpace ('' '' @ [CHR 0xC2, CHR 0xA0] @ ''7'' @ [CHR 0x09] @ crlf) = ''7''"
proof -
  note co = testDevice_commandOutput [OF cmd_not_blank sentinel_clean,
      where serial = "[]" and attr = "[]" and devices = "[]"]
  note ev = spaceEncodings_def startsWithSpace_def endsWithSpace_def argsAfter_def crlf_def lf_def
  have 7: "Replace_CRLF (''line1'' @ crlf @ ''line2'' @ crlf) = ''line1'' @ lf @ ''line2'' @ lf"
    by code_simp
  have 8: "TrimSpace ('' '' @ [CHR 0xC2, CHR 0xA0] @ ''7'' @ [CHR 0x09] @ crlf) = ''7''"
    by code_simp
  have t1: "Atoi ''1'' = (1, None)"
    by code_simp
  have t2: "Atoi ''zero'' = (0, Some ErrSyntax)"
    by code_simp
  have t3: "Atoi ''-9223372036854775809'' = (- 9223372036854775808, Some ErrRange)"
    by code_simp
  have t7: "Atoi ''7'' = (7, None)"
    by code_simp
  note a = RunCommand_sentinel [OF co [where stream =
          "Join [''line1'', ''line2'', []] crlf @ CHR '':'' # concat [[CHR 0x20], [CHR 0xC2, CHR 0xA0]] @ ''7''
             @ concat [[CHR 0x09], [CHR 0x0D], [CHR 0x0A]]"],
        where lines = "[''line1'', ''line2'', []]" and gap = "[[CHR 0x20], [CHR 0xC2, CHR 0xA0]]"
          and num = "''7''" and tail = "[[CHR 0x09], [CHR 0x0D], [CHR 0x0A]]" and spare = 0]
  have 1: "snd (RunCommand (testDevice [] []
          (''line1'' @ crlf @ ''line2'' @ crlf @ '': '' @ [CHR 0xC2, CHR 0xA0] @ ''7'' @ [CHR 0x09] @ crlf) [])
        0 ''cmd'' []) =
     Returned (''line1'' @ lf @ ''line2'' @ lf, Some (ShellExitError [] 7))"
    using a [THEN conjunct2, THEN conjunct2, THEN conjunct1] by (simp add: t7 ev)
  have 2: "snd (RunCommand (testDevice [] [] ''output:0'' []) 0 ''cmd'' []) = Returned (''output'', None)"
    using RunCommand_sentinel [OF co [where stream = "''output:0''"], where spare = 0,
        THEN conjunct2, THEN conjunct2, THEN conjunct2]
    by simp
  note b = RunCommand_sentinel [OF co [where stream = "Join [''output''] crlf @ CHR '':'' # concat [] @ ''1'' @ concat []"],
        where lines = "[''output'']" and gap = "[]" and num = "''1''" and tail = "[]" and spare = 0]
  have 3: "snd (RunCommand (testDevice [] [] ''output:1'' []) 0 ''cmd'' []) =
       Returned (''output'', Some (ShellExitError [] 1))"
    using b [THEN conjunct2, THEN conjunct2, THEN conjunct1]
    by (simp add: t1 ev digitsValue_def isDigit_def)
  have 4: "snd (RunCommand (testDevice [] [] ''output'' []) 0 ''cmd'' []) =
       Returned (''output'', Some (FmtError ''adb shell error, parse exit code failed''))"
    using RunCommand_sentinel [OF co [where stream = "''output''"], where spare = 0, THEN conjunct1]
    by simp
  note c = RunCommand_sentinel [OF co [where stream = "Join [''a:b''] crlf @ CHR '':'' # concat [] @ ''zero'' @ concat []"],
        where lines = "[''a:b'']" and gap = "[]" and num = "''zero''" and tail = "[]" and spare = 0]
  have 5: "snd (RunCommand (testDevice [] [] ''a:b:zero'' []) 0 ''cmd'' []) = Returned (''a:b'', None)"
    using c [THEN conjunct2, THEN conjunct2, THEN conjunct1] by (simp add: t2 ev)
  note d = RunCommand_sentinel [OF co [where stream =
          "Join [''x''] crlf @ CHR '':'' # concat [] @ ''-9223372036854775809'' @ concat []"],
        where lines = "[''x'']" and gap = "[]" and num = "''-9223372036854775809''" and tail = "[]" and spare = 0]
  have 6: "snd (RunCommand (testDevice [] [] ''x:-9223372036854775809'' []) 0 ''cmd'' []) =
       Returned (''x'', Some (ShellExitError [] (- 9223372036854775808)))"
    using d [THEN conjunct2, THEN conjunct2, THEN conjunct1] by (simp add: t3 ev)
  from 1 2 3 4 5 6 7 8 show ?thesis
    by (simp add: t2 t3)
qed

text \<open>
  C4: when the exit code read from the output is not 0, \<open>RunCommand\<close> returns a
  \<open>ShellExitError\<close> with that exit code, together with the text before the last colon,
  CR LF replaced by LF; when it is 0 the error is nil. But the error does not carry the
  command text: its field \<open>Command\<close> is \<open>strings.Join(args, " ")\<close>, the arguments without
  the command, as the slice \<open>args\<close> holds them after the call. For \<open>RunCommand("ls")\<close>
  against the output "output:1" the error is \<open>ShellExitError{"", 1}\<close>, which prints as
  "shell  exit code 1".
\<close>

theorem RunCommand_exit_error:
  "(commandOutput c cmd (args @ sentinel) =
      (exArgs, Returned (Join lines crlf @ CHR '':'' # concat gap @ num @ concat tail, None))
    \<and> (\<forall>l\<in>set lines. \<not> containsCRLF l) \<and> CHR '':'' \<notin> set num
    \<and> set gap \<subseteq> set spaceEncodings \<and> set tail \<subseteq> set spaceEncodings
    \<and> \<not> startsWithSpace num \<and> \<not> endsWithSpace num \<longrightarrow>
      (fst (Atoi num) \<noteq> 0 \<longrightarrow>
         RunCommand c spare cmd args =
           (argsAfter spare args,
            Returned (Join lines lf,
              Some (ShellExitError (Join (argsAfter spare args) '' '') (fst (Atoi num))))))
      \<and> (fst (Atoi num) = 0 \<longrightarrow>
           RunCommand c spare cmd args = (argsAfter spare args, Returned (Join lines lf, None))))
   \<and> RunCommand (testDevice [] [] ''output:1'' []) 0 ''ls'' [] =
       ([], Returned (''output'', Some (ShellExitError [] 1)))
   \<and> ShellExitError_Error [] 1 = ''shell  exit code 1''"
proof (intro conjI impI)
  assume h: "commandOutput c cmd (args @ sentinel) =
      (exArgs, Returned (Join lines crlf @ CHR '':'' # concat gap @ num @ concat tail, None))
    \<and> (\<forall>l\<in>set lines. \<not> containsCRLF l) \<and> CHR '':'' \<notin> set num
    \<and> set gap \<subseteq> set spaceEncodings \<and> set tail \<subseteq> set spaceEncodings
    \<and> \<not> startsWithSpace num \<and> \<not> endsWithSpace num"
  then have r: "RunCommand c spare cmd args =
           (argsAfter spare args,
            Returned (Join lines lf,
              if fst (Atoi num) = 0 then None
              else Some (ShellExitError (Join (argsAfter spare args) '' '') (fst (Atoi num)))))"
    by (intro RunCommand_record) auto
  {
    assume "fst (Atoi num) \<noteq> 0"
    with r show "RunCommand c spare cmd args =
           (argsAfter spare args,
            Returned (Join lines lf,
              Some (ShellExitError (Join (argsAfter spare args) '' '') (fst (Atoi num)))))"
      by simp
  }
  {
    assume "fst (Atoi num) = 0"
    with r show "RunCommand c spare cmd args = (argsAfter spare args, Returned (Join lines lf, None))"
      by simp
  }
next
  show "RunCommand (testDevice [] [] ''output:1'' []) 0 ''ls'' [] =
       ([], Returned (''output'', Some (ShellExitError [] 1)))"
    by code_simp
next
  show "ShellExitError_Error [] 1 = ''shell  exit code 1''"
    by code_simp
qed

theorem RunCommand_exit_error_witness:
  "RunCommand (testDevice [] [] (''a'' @ crlf @ ''b'' @ crlf @ '': 2'' @ crlf) []) 0 ''ls'' [''-l'', ''/sd card''] =
     ([''-l'', ''/sd card''],
      Returned (''a'' @ lf @ ''b'' @ lf, Some (ShellExitError ''-l /sd card'' 2)))
   \<and> RunCommand (testDevice [] [] (''a'' @ crlf @ ''b'' @ crlf @ '': 2'' @ crlf) []) 3 ''ls'' [''-l'', ''/sd card''] =
     ([''-l'', [dquote] @ ''/sd card'' @ [dquote]],
      Returned (''a'' @ lf @ ''b'' @ lf, Some (ShellExitError (''-l '' @ [dquote] @ ''/sd card'' @ [dquote]) 2)))
   \<and> RunCommand (testDevice [] [] (''a'' @ crlf @ ''b'' @ crlf @ '': 0'' @ crlf) []) 0 ''ls'' [''-l'', ''/sd card''] =
     ([''-l'', ''/sd card''], Returned (''a'' @ lf @ ''b'' @ lf, None))
   \<and> Replace_CRLF (''a'' @ crlf @ ''b'' @ crlf) = ''a'' @ lf @ ''b'' @ lf
   \<and> TrimSpace ('' 2'' @ crlf) = ''2''"
proof -
  have 4: "Replace_CRLF (''a'' @ crlf @ ''b'' @ crlf) = ''a'' @ lf @ ''b'' @ lf"
    by code_simp
  have 5: "TrimSpace ('' 2'' @ crlf) = ''2''"
    by code_simp
  have q: "\<forall>arg\<in>set ([''-l'', ''/sd card''] @ sentinel). \<not> ContainsRune_dquote arg"
    by (simp add: sentinel_def ContainsRune_dquote_def dquote_def)
  have g: "\<not> isBlank ''ls''"
    by (simp add: isBlank_def asciiSpace_def)
  note co = testDevice_commandOutput [OF g q, where serial = "[]" and attr = "[]" and devices = "[]"]
  note ev = spaceEncodings_def startsWithSpace_def endsWithSpace_def argsAfter_def crlf_def lf_def
    quoteArg_def containsWhitespace_def asciiSpace_def
  have t0: "Atoi ''0'' = (0, None)"
    by code_simp
  have t2: "Atoi ''2'' = (2, None)"
    by code_simp
  note a0 = RunCommand_exit_error [where c = "testDevice [] []
        (Join [''a'', ''b'', []] crlf @ CHR '':'' # concat [[CHR 0x20]] @ ''2'' @ concat [[CHR 0x0D], [CHR 0x0A]]) []"
      and cmd = "''ls''" and args = "[''-l'', ''/sd card'']"
      and exArgs = "map quoteArg ([''-l'', ''/sd card''] @ sentinel)"
      and lines = "[''a'', ''b'', []]" and gap = "[[CHR 0x20]]" and num = "''2''"
      and tail = "[[CHR 0x0D], [CHR 0x0A]]" and spare = 0, THEN conjunct1]
  note a3 = RunCommand_exit_error [where c = "testDevice [] []
        (Join [''a'', ''b'', []] crlf @ CHR '':'' # concat [[CHR 0x20]] @ ''2'' @ concat [[CHR 0x0D], [CHR 0x0A]]) []"
      and cmd = "''ls''" and args = "[''-l'', ''/sd card'']"
      and exArgs = "map quoteArg ([''-l'', ''/sd card''] @ sentinel)"
      and lines = "[''a'', ''b'', []]" and gap = "[[CHR 0x20]]" and num = "''2''"
      and tail = "[[CHR 0x0D], [CHR 0x0A]]" and spare = 3, THEN conjunct1]
  note b = RunCommand_exit_error [where c = "testDevice [] []
        (Join [''a'', ''b'', []] crlf @ CHR '':'' # concat [[CHR 0x20]] @ ''0'' @ concat [[CHR 0x0D], [CHR 0x0A]]) []"
      and cmd = "''ls''" and args = "[''-l'', ''/sd card'']"
      and exArgs = "map quoteArg ([''-l'', ''/sd card''] @ sentinel)"
      and lines = "[''a'', ''b'', []]" and gap = "[[CHR 0x20]]" and num = "''0''"
      and tail = "[[CHR 0x0D], [CHR 0x0A]]" and spare = 0, THEN conjunct1]
  have 1: "RunCommand (testDevice [] [] (''a'' @ crlf @ ''b'' @ crlf @ '': 2'' @ crlf) []) 0 ''ls'' [''-l'', ''/sd card''] =
     ([''-l'', ''/sd card''],
      Returned (''a'' @ lf @ ''b'' @ lf, Some (ShellExitError ''-l /sd card'' 2)))"
    using a0 co by (simp add: t2 ev)
  have 2: "RunCommand (testDevice [] [] (''a'' @ crlf @ ''b'' @ crlf @ '': 2'' @ crlf) []) 3 ''ls'' [''-l'', ''/sd card''] =
     ([''-l'', [dquote] @ ''/sd card'' @ [dquote]],
      Returned (''a'' @ lf @ ''b'' @ lf, Some (ShellExitError (''-l '' @ [dquote] @ ''/sd card'' @ [dquote]) 2)))"
    using a3 co by (simp add: t2 ev)
  have 3: "RunCommand (testDevice [] [] (''a'' @ crlf @ ''b'' @ crlf @ '': 0'' @ crlf) []) 0 ''ls'' [''-l'', ''/sd card''] =
     ([''-l'', ''/sd card''], Returned (''a'' @ lf @ ''b'' @ lf, None))"
    using b co by (simp add: t0 ev)
  from 1 2 3 4 5 show ?thesis by simp
qed


text \<open>
  Two more differences, on the streams of a shell that answers both sentinels. The text
  is normalised twice by \<open>RunCommandWithExitCode\<close>, so CR CR LF becomes LF there and CR
  LF in \<open>RunCommand\<close>. And when the slice \<open>args\<close> has room for three to five more
  elements, \<open>RunCommand\<close> quotes the arguments in place before it joins them for the
  error, and \<open>RunCommandWithExitCode\<close> joins them as they were.
\<close>

lemma RunCommandWithExitCode_provisos:
  "snd (RunCommand (shellDevice (echoShell ''cmd'' (''a'' @ [CHR 0x0D] @ crlf) ''0'')) 0 ''cmd'' []) =
     Returned (''a'' @ crlf, None)
   \<and> snd (RunCommandWithExitCode (shellDevice (echoShell ''cmd'' (''a'' @ [CHR 0x0D] @ crlf) ''0'')) 0 0 ''cmd'' []) =
     Returned (''a'' @ lf, 0, None)
   \<and> snd (RunCommand (shellDevice (echoShell (''cmd '' @ [dquote] @ ''a b'' @ [dquote]) ''out'' ''1'')) 3 ''cmd'' [''a b'']) =
     Returned (''out'', Some (ShellExitError ([dquote] @ ''a b'' @ [dquote]) 1))
   \<and> snd (RunCommandWithExitCode (shellDevice (echoShell (''cmd '' @ [dquote] @ ''a b'' @ [dquote]) ''out'' ''1'')) 3 0
          ''cmd'' [''a b'']) =
     Returned (''out'', 1, Some (ShellExitError ''a b'' 1))"
  by code_simp





end
